theory Spec2Isabelle
  imports Complex_Main "HOL-Library.Log_Nat"
begin

section \<open>The inventory slice (src/capstone/store/slices/inventorySlice.ts)\<close>

text \<open>
  The slice keeps a normalized collection of products (an entity adapter state: the list
  \<open>ids\<close> and the dictionary \<open>entities\<close>) next to the status of the last fetch, the last error,
  the active filter and the active sort. Readings of the clock and the results of
  \<open>Math.random()\<close> are inputs of the functions that use them.
\<close>

subsection \<open>Numbers\<close>

text \<open>
  A \<open>number\<close> is a double. A finite one is written as its value, a rational; comparing
  two finite doubles compares their values. NaN and the infinities are not values of the
  type: an operation whose result is not finite returns \<open>None\<close>.
\<close>

type_synonym number = rat

text \<open>The power of two with an integer exponent.\<close>

definition pow2 :: "int \<Rightarrow> rat" where
  "pow2 e = (if 0 \<le> e then 2 ^ nat e else 1 / 2 ^ nat (- e))"

text \<open>For a positive \<open>x\<close>, the exponent \<open>k\<close> with \<open>2^k \<le> x < 2^(k+1)\<close>.\<close>

definition log2floor :: "rat \<Rightarrow> int" where
  "log2floor x = (if 1 \<le> x then bitlen \<lfloor>x\<rfloor> - 1 else - bitlen (\<lceil>1 / x\<rceil> - 1))"

text \<open>The nearest integer, the even one of the two when they are equally near.\<close>

definition roundHalfEven :: "rat \<Rightarrow> int" where
  "roundHalfEven x =
     (let f = \<lfloor>x\<rfloor>; d = x - of_int f
      in if d < 1 / 2 then f else if 1 / 2 < d then f + 1 else if even f then f else f + 1)"

text \<open>
  The double nearest to a rational (IEEE 754 binary64, round to nearest, ties to even): a
  significand of 53 bits, the exponent of the last bit not below \<open>-1074\<close>, and an infinity
  (\<open>None\<close>) from \<open>2^1024\<close> on.
\<close>

definition roundDouble :: "rat \<Rightarrow> number option" where
  "roundDouble x =
     (if x = 0 then Some 0
      else let e = max (log2floor \<bar>x\<bar> - 52) (- 1074);
               r = of_int (roundHalfEven (\<bar>x\<bar> / pow2 e)) * pow2 e
           in if 2 ^ 1024 \<le> r then None else Some (sgn x * r))"

text \<open>
  \<open>a * b\<close> and \<open>a + b\<close> on numbers: the exact result, rounded. A sum with an operand that is
  not finite is not finite.
\<close>

definition jsMul :: "number \<Rightarrow> number \<Rightarrow> number option" where
  "jsMul a b = roundDouble (a * b)"

definition jsAdd :: "number option \<Rightarrow> number option \<Rightarrow> number option" where
  "jsAdd a b =
     (case a of
        None \<Rightarrow> None
      | Some x \<Rightarrow> (case b of None \<Rightarrow> None | Some y \<Rightarrow> roundDouble (x + y)))"

subsection \<open>Type definitions\<close>

datatype StockStatus = InStock | LowStock | OutOfStock

text \<open>The string the source writes for each tag of \<open>Product['status']\<close>.\<close>

fun statusTag :: "StockStatus \<Rightarrow> string" where
  "statusTag InStock = ''in-stock''"
| "statusTag LowStock = ''low-stock''"
| "statusTag OutOfStock = ''out-of-stock''"

text \<open>
  \<open>interface Product\<close>. The field \<open>id\<close> is \<open>pid\<close> here (\<open>id\<close> is HOL's identity function).
\<close>

record Product =
  pid :: string
  name :: string
  sku :: string
  category :: string
  price :: number
  quantity :: number
  minStock :: number
  status :: StockStatus
  lastUpdated :: string

text \<open>\<open>Omit<Product, 'id' | 'lastUpdated' | 'status'>\<close>, the argument of \<open>addProduct\<close>.\<close>

record ProductData =
  d_name :: string
  d_sku :: string
  d_category :: string
  d_price :: number
  d_quantity :: number
  d_minStock :: number

text \<open>\<open>Partial<Product>\<close>, the changes of \<open>updateProduct\<close>: every field may be absent.\<close>

record ProductChanges =
  c_id :: "string option"
  c_name :: "string option"
  c_sku :: "string option"
  c_category :: "string option"
  c_price :: "number option"
  c_quantity :: "number option"
  c_minStock :: "number option"
  c_status :: "StockStatus option"
  c_lastUpdated :: "string option"

datatype FetchStatus = Idle | Loading | Succeeded | Failed

datatype ProductKey =
  KeyId | KeyName | KeySku | KeyCategory | KeyPrice | KeyQuantity | KeyMinStock
  | KeyStatus | KeyLastUpdated

datatype SortOrder = Asc | Desc

text \<open>\<open>InventoryState['filter']\<close>; its fields \<open>category\<close> and \<open>status\<close> are strings.\<close>

record Filter =
  f_category :: string
  f_status :: string
  f_searchTerm :: string

datatype FilterKey = FCategory | FStatus | FSearchTerm

text \<open>
  The state of the slice: the adapter's \<open>ids\<close> and \<open>entities\<close> and the fields of
  \<open>InventoryState\<close>. The fetch status is \<open>fetchStatus\<close> (the source's \<open>status\<close>, which is
  also a field of \<open>Product\<close>) and the filter is \<open>filterBy\<close> (the source's \<open>filter\<close>).
\<close>

record InventoryState =
  ids :: "string list"
  entities :: "string \<rightharpoonup> Product"
  fetchStatus :: FetchStatus
  error :: "string option"
  filterBy :: Filter
  sortBy :: ProductKey
  sortOrder :: SortOrder

text \<open>What a thunk made by \<open>createAsyncThunk\<close> dispatches when its payload creator ends.\<close>

datatype 'a ThunkResult = Fulfilled 'a | Rejected string

subsection \<open>Strings\<close>

text \<open>\<open>String(n)\<close> for a non-negative integer: its decimal digits.\<close>

definition digitChar :: "nat \<Rightarrow> char" where
  "digitChar d = ''0123456789'' ! d"

fun stringOfNat :: "nat \<Rightarrow> string" where
  "stringOfNat n =
     (if n < 10 then [digitChar n] else stringOfNat (n div 10) @ [digitChar (n mod 10)])"

declare stringOfNat.simps [simp del]

text \<open>\<open>s.padStart(n, '0')\<close>.\<close>

definition padStart :: "nat \<Rightarrow> string \<Rightarrow> string" where
  "padStart n s = replicate (n - length s) (CHR ''0'') @ s"

fun startsWith :: "string \<Rightarrow> string \<Rightarrow> bool" where
  "startsWith s [] = True"
| "startsWith [] (c # t) = False"
| "startsWith (d # s) (c # t) = (d = c \<and> startsWith s t)"

text \<open>\<open>s.includes(t)\<close>: \<open>t\<close> occurs in \<open>s\<close> at some position.\<close>

fun includesStr :: "string \<Rightarrow> string \<Rightarrow> bool" where
  "includesStr [] t = (t = [])"
| "includesStr (d # s) t = (startsWith (d # s) t \<or> includesStr s t)"

subsection \<open>The entity adapter\<close>

text \<open>
  \<open>createEntityAdapter\<close> is Redux Toolkit's, a dependency of the repository. The slice
  uses four operations of its sorted adapter (\<open>setAll\<close>, \<open>addOne\<close>, \<open>updateOne\<close>,
  \<open>removeOne\<close>) and its selector \<open>selectAll\<close>, with
  \<open>sortComparer: (a, b) => a.name.localeCompare(b.name)\<close>. They are written here as the
  library has them: the entities are stored under their ids, and after every change the
  list \<open>ids\<close> is the ids of the entities sorted by the comparer. \<open>localeCompare\<close> is the
  platform's collation and is a parameter \<open>lc\<close> of everything that sorts.
\<close>

definition sortComparer :: "(string \<Rightarrow> string \<Rightarrow> int) \<Rightarrow> Product \<Rightarrow> Product \<Rightarrow> int" where
  "sortComparer lc a b = lc (name a) (name b)"

text \<open>\<open>Array.prototype.sort\<close> with a comparer: stable, \<open>a\<close> before \<open>b\<close> when the comparer is negative.\<close>

fun insertSorted :: "('a \<Rightarrow> 'a \<Rightarrow> int) \<Rightarrow> 'a \<Rightarrow> 'a list \<Rightarrow> 'a list" where
  "insertSorted c x [] = [x]"
| "insertSorted c x (y # ys) = (if c x y < 0 then x # y # ys else y # insertSorted c x ys)"

definition sortWith :: "('a \<Rightarrow> 'a \<Rightarrow> int) \<Rightarrow> 'a list \<Rightarrow> 'a list" where
  "sortWith c xs = foldl (\<lambda>acc x. insertSorted c x acc) [] xs"

text \<open>The first occurrence of every element, in order (the keys of an object being filled).\<close>

definition keepFirst :: "'a list \<Rightarrow> 'a list" where
  "keepFirst xs = rev (remdups (rev xs))"

text \<open>
  \<open>resortEntities\<close>: the entities are sorted by the comparer and \<open>ids\<close> becomes their ids.
  The entities are enumerated along the list of keys \<open>ks\<close>.
\<close>

definition resortEntities ::
  "(string \<Rightarrow> string \<Rightarrow> int) \<Rightarrow> (string \<rightharpoonup> Product) \<Rightarrow> string list \<Rightarrow> string list" where
  "resortEntities lc es ks = map pid (sortWith (sortComparer lc) (List.map_filter es ks))"

text \<open>\<open>addOne\<close>: an entity whose id is already a key is ignored.\<close>

definition addOne ::
  "(string \<Rightarrow> string \<Rightarrow> int) \<Rightarrow> Product \<Rightarrow> InventoryState \<Rightarrow> InventoryState" where
  "addOne lc p s =
     (if entities s (pid p) \<noteq> None then s
      else let es = (entities s)(pid p \<mapsto> p)
           in s\<lparr>ids := resortEntities lc es (ids s @ [pid p]), entities := es\<rparr>)"

text \<open>\<open>setAll\<close>: the collection is emptied, then every entity is stored under its id.\<close>

definition setAll ::
  "(string \<Rightarrow> string \<Rightarrow> int) \<Rightarrow> Product list \<Rightarrow> InventoryState \<Rightarrow> InventoryState" where
  "setAll lc ps s =
     (let es = foldl (\<lambda>m p. m(pid p \<mapsto> p)) Map.empty ps
      in s\<lparr>ids := resortEntities lc es (keepFirst (map pid ps)), entities := es\<rparr>)"

text \<open>\<open>Object.assign(entity, changes)\<close>: every field present in the changes is overwritten.\<close>

definition assignChanges :: "ProductChanges \<Rightarrow> Product \<Rightarrow> Product" where
  "assignChanges c p =
     \<lparr> pid = (case c_id c of None \<Rightarrow> pid p | Some v \<Rightarrow> v),
       name = (case c_name c of None \<Rightarrow> name p | Some v \<Rightarrow> v),
       sku = (case c_sku c of None \<Rightarrow> sku p | Some v \<Rightarrow> v),
       category = (case c_category c of None \<Rightarrow> category p | Some v \<Rightarrow> v),
       price = (case c_price c of None \<Rightarrow> price p | Some v \<Rightarrow> v),
       quantity = (case c_quantity c of None \<Rightarrow> quantity p | Some v \<Rightarrow> v),
       minStock = (case c_minStock c of None \<Rightarrow> minStock p | Some v \<Rightarrow> v),
       status = (case c_status c of None \<Rightarrow> status p | Some v \<Rightarrow> v),
       lastUpdated = (case c_lastUpdated c of None \<Rightarrow> lastUpdated p | Some v \<Rightarrow> v) \<rparr>"

text \<open>
  \<open>updateOne\<close>: an unknown id is ignored; otherwise the changes are assigned to the entity,
  which moves to its new id when the changes carry one, and the ids are sorted again.
\<close>

definition updateOne ::
  "(string \<Rightarrow> string \<Rightarrow> int) \<Rightarrow> string \<times> ProductChanges \<Rightarrow> InventoryState \<Rightarrow> InventoryState" where
  "updateOne lc u s =
     (case entities s (fst u) of
        None \<Rightarrow> s
      | Some p \<Rightarrow>
          let p' = assignChanges (snd u) p;
              es = ((entities s)(fst u := None))(pid p' \<mapsto> p');
              ks = keepFirst (map (\<lambda>k. if k = fst u then pid p' else k) (ids s))
          in s\<lparr>ids := resortEntities lc es ks, entities := es\<rparr>)"

text \<open>\<open>removeOne\<close>: the key is deleted and \<open>ids\<close> keeps the ids that are still keys.\<close>

definition removeOne :: "string \<Rightarrow> InventoryState \<Rightarrow> InventoryState" where
  "removeOne k s =
     (if entities s k \<noteq> None
      then let es = (entities s)(k := None)
           in s\<lparr>ids := filter (\<lambda>i. es i \<noteq> None) (ids s), entities := es\<rparr>
      else s)"

text \<open>
  \<open>selectAll\<close>: \<open>ids.map(id => entities[id])\<close>. The adapter keeps \<open>ids\<close> equal to the keys
  of \<open>entities\<close> (\<open>adapterInv\<close> below, which holds after every run of the store), so every
  lookup finds its entity (\<open>selectAll_lookup\<close>).
\<close>

definition selectAllProducts :: "InventoryState \<Rightarrow> Product list" where
  "selectAllProducts s = List.map_filter (entities s) (ids s)"

subsection \<open>Initial state\<close>

definition clearedFilter :: Filter where
  "clearedFilter = \<lparr> f_category = ''all'', f_status = ''all'', f_searchTerm = [] \<rparr>"

definition initialState :: InventoryState where
  "initialState =
     \<lparr> ids = [], entities = Map.empty, fetchStatus = Idle, error = None,
       filterBy = clearedFilter, sortBy = KeyName, sortOrder = Asc \<rparr>"

subsection \<open>Mock data generator\<close>

text \<open>
  The status of a product with the given quantity and minimum stock, as the generator,
  \<open>addProduct\<close> and \<open>updateStock\<close> each compute it.
\<close>

definition computeStatus :: "number \<Rightarrow> number \<Rightarrow> StockStatus" where
  "computeStatus q m = (if q = 0 then OutOfStock else if q < m then LowStock else InStock)"

text \<open>
  What the random expressions of one generated product evaluate to:
  \<open>Math.floor(Math.random() * 100)\<close>, the category drawn from \<open>categories\<close>,
  \<open>Math.floor(Math.random() * 1000) + 10\<close> and the date in the last thirty days.
\<close>

record Draw =
  r_quantity :: number
  r_category :: string
  r_price :: number
  r_lastUpdated :: string

definition categories :: "string list" where
  "categories = [''Electronics'', ''Clothing'', ''Food'', ''Books'', ''Sports'', ''Home'']"

definition mockProduct :: "nat \<Rightarrow> Draw \<Rightarrow> Product" where
  "mockProduct index r =
     (let quantity = r_quantity r; minStock = 10
      in \<lparr> pid = ''PROD-'' @ padStart 5 (stringOfNat (index + 1)),
           name = ''Product '' @ stringOfNat (index + 1),
           sku = ''SKU-'' @ padStart 6 (stringOfNat (index + 1)),
           category = r_category r,
           price = r_price r,
           quantity = quantity,
           minStock = minStock,
           status = computeStatus quantity minStock,
           lastUpdated = r_lastUpdated r \<rparr>)"

text \<open>
  \<open>Array.from({ length: count }, ...)\<close> makes the array of \<open>count\<close> products; it throws a
  range error, with the message \<open>Invalid array length\<close>, when \<open>count\<close> is above \<open>2^32 - 1\<close>.
\<close>

definition generateMockProducts :: "nat \<Rightarrow> (nat \<Rightarrow> Draw) \<Rightarrow> string + Product list" where
  "generateMockProducts count rnd =
     (if 4294967295 < count then Inl ''Invalid array length''
      else Inr (map (\<lambda>index. mockProduct index (rnd index)) [0..<count]))"

subsection \<open>Async thunks\<close>

text \<open>
  \<open>fetchInventory\<close>: \<open>netFail\<close> is the outcome of \<open>Math.random() < 0.1\<close>. An error thrown in
  the \<open>try\<close> block, the network error or the range error of the generator, is caught and
  its message is the rejected value.
\<close>

definition fetchInventory :: "bool \<Rightarrow> nat \<Rightarrow> (nat \<Rightarrow> Draw) \<Rightarrow> Product list ThunkResult" where
  "fetchInventory netFail count rnd =
     (if netFail then Rejected ''Network error: Failed to fetch inventory''
      else case generateMockProducts count rnd of
             Inl message \<Rightarrow> Rejected message
           | Inr products \<Rightarrow> Fulfilled products)"

text \<open>
  \<open>addProduct\<close>: \<open>now\<close> is \<open>Date.now()\<close> and \<open>stamp\<close> is \<open>new Date().toISOString()\<close>.
  Nothing in the \<open>try\<close> block throws, so the thunk is always fulfilled.
\<close>

definition addProduct :: "nat \<Rightarrow> string \<Rightarrow> ProductData \<Rightarrow> Product ThunkResult" where
  "addProduct now stamp productData =
     (let quantity = d_quantity productData; minStock = d_minStock productData
      in Fulfilled
           \<lparr> pid = ''PROD-'' @ stringOfNat now,
             name = d_name productData,
             sku = d_sku productData,
             category = d_category productData,
             price = d_price productData,
             quantity = quantity,
             minStock = minStock,
             status = computeStatus quantity minStock,
             lastUpdated = stamp \<rparr>)"

definition updateProduct ::
  "string \<Rightarrow> string \<times> ProductChanges \<Rightarrow> (string \<times> ProductChanges) ThunkResult" where
  "updateProduct stamp u = Fulfilled (fst u, (snd u)\<lparr>c_lastUpdated := Some stamp\<rparr>)"

definition deleteProduct :: "string \<Rightarrow> string ThunkResult" where
  "deleteProduct k = Fulfilled k"

subsection \<open>Slice definition: reducers\<close>

definition setFilter :: "FilterKey \<Rightarrow> string \<Rightarrow> InventoryState \<Rightarrow> InventoryState" where
  "setFilter key v s =
     (case key of
        FCategory \<Rightarrow> s\<lparr>filterBy := (filterBy s)\<lparr>f_category := v\<rparr>\<rparr>
      | FStatus \<Rightarrow> s\<lparr>filterBy := (filterBy s)\<lparr>f_status := v\<rparr>\<rparr>
      | FSearchTerm \<Rightarrow> s\<lparr>filterBy := (filterBy s)\<lparr>f_searchTerm := v\<rparr>\<rparr>)"

definition clearFilters :: "InventoryState \<Rightarrow> InventoryState" where
  "clearFilters s = s\<lparr>filterBy := clearedFilter\<rparr>"

definition setSort :: "ProductKey \<Rightarrow> SortOrder \<Rightarrow> InventoryState \<Rightarrow> InventoryState" where
  "setSort k ord s = s\<lparr>sortBy := k, sortOrder := ord\<rparr>"

text \<open>
  \<open>updateStock\<close>, with payload \<open>{id, quantity}\<close>; \<open>stamp\<close> is \<open>new Date().toISOString()\<close>.
  Nothing happens when the id has no entity.
\<close>

definition updateStock ::
  "string \<Rightarrow> string \<Rightarrow> number \<Rightarrow> InventoryState \<Rightarrow> InventoryState" where
  "updateStock stamp k q s =
     (case entities s k of
        None \<Rightarrow> s
      | Some product \<Rightarrow>
          s\<lparr>entities := (entities s)(k \<mapsto>
               product\<lparr>quantity := q,
                        status := (if q = 0 then OutOfStock
                                   else if q < minStock product then LowStock
                                   else InStock),
                        lastUpdated := stamp\<rparr>)\<rparr>)"

subsection \<open>Slice definition: extra reducers\<close>

definition fetchInventory_pending :: "InventoryState \<Rightarrow> InventoryState" where
  "fetchInventory_pending s = s\<lparr>fetchStatus := Loading, error := None\<rparr>"

definition fetchInventory_fulfilled ::
  "(string \<Rightarrow> string \<Rightarrow> int) \<Rightarrow> Product list \<Rightarrow> InventoryState \<Rightarrow> InventoryState" where
  "fetchInventory_fulfilled lc payload s = setAll lc payload (s\<lparr>fetchStatus := Succeeded\<rparr>)"

definition fetchInventory_rejected :: "string \<Rightarrow> InventoryState \<Rightarrow> InventoryState" where
  "fetchInventory_rejected payload s = s\<lparr>fetchStatus := Failed, error := Some payload\<rparr>"

definition addProduct_fulfilled ::
  "(string \<Rightarrow> string \<Rightarrow> int) \<Rightarrow> Product \<Rightarrow> InventoryState \<Rightarrow> InventoryState" where
  "addProduct_fulfilled lc payload s = addOne lc payload s"

definition updateProduct_fulfilled ::
  "(string \<Rightarrow> string \<Rightarrow> int) \<Rightarrow> string \<times> ProductChanges \<Rightarrow> InventoryState \<Rightarrow> InventoryState" where
  "updateProduct_fulfilled lc payload s = updateOne lc payload s"

definition deleteProduct_fulfilled :: "string \<Rightarrow> InventoryState \<Rightarrow> InventoryState" where
  "deleteProduct_fulfilled payload s = removeOne payload s"

subsection \<open>Selectors\<close>

text \<open>
  The callback of \<open>selectFilteredProducts\<close>. \<open>toLowerCase\<close> is the platform's mapping of
  every cased letter to its lower case and is a parameter \<open>lower\<close>.
\<close>

definition matchesFilter :: "(string \<Rightarrow> string) \<Rightarrow> Filter \<Rightarrow> Product \<Rightarrow> bool" where
  "matchesFilter lower f product =
     (let matchesCategory = (f_category f = ''all'' \<or> category product = f_category f);
          matchesStatus = (f_status f = ''all'' \<or> statusTag (status product) = f_status f);
          matchesSearch = (f_searchTerm f = [] \<or>
            includesStr (lower (name product)) (lower (f_searchTerm f)) \<or>
            includesStr (lower (sku product)) (lower (f_searchTerm f)))
      in matchesCategory \<and> matchesStatus \<and> matchesSearch)"

definition selectFilteredProducts ::
  "(string \<Rightarrow> string) \<Rightarrow> InventoryState \<Rightarrow> Product list" where
  "selectFilteredProducts lower s =
     filter (matchesFilter lower (filterBy s)) (selectAllProducts s)"

record InventoryStats =
  total :: nat
  inStock :: nat
  lowStock :: nat
  outOfStock :: nat
  totalValue :: "number option"
  statCategories :: "string list"

text \<open>
  \<open>selectInventoryStats\<close>. The \<open>reduce\<close> adds the products of price and quantity from left
  to right, as doubles; the total value is \<open>None\<close> when it is not finite.
  \<open>Array.from(new Set(xs))\<close> keeps the first occurrences.
\<close>

definition selectInventoryStats :: "InventoryState \<Rightarrow> InventoryStats" where
  "selectInventoryStats s =
     (let products = selectAllProducts s
      in \<lparr> total = length products,
           inStock = length (filter (\<lambda>p. status p = InStock) products),
           lowStock = length (filter (\<lambda>p. status p = LowStock) products),
           outOfStock = length (filter (\<lambda>p. status p = OutOfStock) products),
           totalValue =
             foldl (\<lambda>sum p. jsAdd sum (jsMul (price p) (quantity p))) (Some 0) products,
           statCategories = keepFirst (map category products) \<rparr>)"

subsection \<open>Dispatching the thunks\<close>

text \<open>
  Dispatching a thunk dispatches its \<open>pending\<close> action, then \<open>fulfilled\<close> or \<open>rejected\<close> with
  what the payload creator returned. The slice handles the three actions of
  \<open>fetchInventory\<close> and only the \<open>fulfilled\<close> action of the other thunks.
\<close>

definition resolveFetchInventory ::
  "(string \<Rightarrow> string \<Rightarrow> int) \<Rightarrow> Product list ThunkResult \<Rightarrow> InventoryState \<Rightarrow> InventoryState" where
  "resolveFetchInventory lc r s =
     (case r of
        Fulfilled payload \<Rightarrow> fetchInventory_fulfilled lc payload s
      | Rejected payload \<Rightarrow> fetchInventory_rejected payload s)"

definition dispatchFetchInventory ::
  "(string \<Rightarrow> string \<Rightarrow> int) \<Rightarrow> bool \<Rightarrow> nat \<Rightarrow> (nat \<Rightarrow> Draw) \<Rightarrow> InventoryState \<Rightarrow> InventoryState" where
  "dispatchFetchInventory lc netFail count rnd s =
     resolveFetchInventory lc (fetchInventory netFail count rnd) (fetchInventory_pending s)"

definition dispatchAddProduct ::
  "(string \<Rightarrow> string \<Rightarrow> int) \<Rightarrow> nat \<Rightarrow> string \<Rightarrow> ProductData \<Rightarrow> InventoryState \<Rightarrow> InventoryState" where
  "dispatchAddProduct lc now stamp productData s =
     (case addProduct now stamp productData of
        Fulfilled payload \<Rightarrow> addProduct_fulfilled lc payload s
      | Rejected payload \<Rightarrow> s)"

definition dispatchUpdateProduct ::
  "(string \<Rightarrow> string \<Rightarrow> int) \<Rightarrow> string \<Rightarrow> string \<times> ProductChanges \<Rightarrow> InventoryState \<Rightarrow> InventoryState" where
  "dispatchUpdateProduct lc stamp u s =
     (case updateProduct stamp u of
        Fulfilled payload \<Rightarrow> updateProduct_fulfilled lc payload s
      | Rejected payload \<Rightarrow> s)"

definition dispatchDeleteProduct :: "string \<Rightarrow> InventoryState \<Rightarrow> InventoryState" where
  "dispatchDeleteProduct k s =
     (case deleteProduct k of
        Fulfilled payload \<Rightarrow> deleteProduct_fulfilled payload s
      | Rejected payload \<Rightarrow> s)"

text \<open>Repeated calls of \<open>addProduct\<close>, each with its clock readings and its data.\<close>

definition dispatchAddProducts ::
  "(string \<Rightarrow> string \<Rightarrow> int) \<Rightarrow> (nat \<times> string \<times> ProductData) list \<Rightarrow> InventoryState \<Rightarrow> InventoryState" where
  "dispatchAddProducts lc calls s =
     foldl (\<lambda>st (now, stamp, productData). dispatchAddProduct lc now stamp productData st) s calls"

subsection \<open>Running the store\<close>

text \<open>
  What the store receives: the four actions of \<open>reducers\<close>, a call of one of the thunks
  \<open>addProduct\<close>, \<open>updateProduct\<close> and \<open>deleteProduct\<close> (only their \<open>fulfilled\<close> action has a
  case), and for \<open>fetchInventory\<close> its \<open>pending\<close> action and, later, its result. The clock
  readings and the random results of a call travel with it.
\<close>

datatype Action =
  SetFilter FilterKey string
| ClearFilters
| SetSort ProductKey SortOrder
| UpdateStock string string number
| AddProduct nat string ProductData
| UpdateProduct string "string \<times> ProductChanges"
| DeleteProduct string
| FetchPending
| FetchResolved bool nat "nat \<Rightarrow> Draw"

fun inventoryReducer ::
  "(string \<Rightarrow> string \<Rightarrow> int) \<Rightarrow> InventoryState \<Rightarrow> Action \<Rightarrow> InventoryState" where
  "inventoryReducer lc s (SetFilter key v) = setFilter key v s"
| "inventoryReducer lc s ClearFilters = clearFilters s"
| "inventoryReducer lc s (SetSort k ord) = setSort k ord s"
| "inventoryReducer lc s (UpdateStock stamp k q) = updateStock stamp k q s"
| "inventoryReducer lc s (AddProduct now stamp productData) =
     dispatchAddProduct lc now stamp productData s"
| "inventoryReducer lc s (UpdateProduct stamp u) = dispatchUpdateProduct lc stamp u s"
| "inventoryReducer lc s (DeleteProduct k) = dispatchDeleteProduct k s"
| "inventoryReducer lc s FetchPending = fetchInventory_pending s"
| "inventoryReducer lc s (FetchResolved netFail count rnd) =
     resolveFetchInventory lc (fetchInventory netFail count rnd) s"

definition run :: "(string \<Rightarrow> string \<Rightarrow> int) \<Rightarrow> Action list \<Rightarrow> InventoryState" where
  "run lc acts = foldl (inventoryReducer lc) initialState acts"

text \<open>
  A result of \<open>fetchInventory\<close> follows a \<open>pending\<close> action of its own: \<open>n\<close> counts the calls
  that are pending. Nothing in the slice keeps a call from starting while another is
  pending.
\<close>

fun resultsFollowPending :: "nat \<Rightarrow> Action list \<Rightarrow> bool" where
  "resultsFollowPending n [] = True"
| "resultsFollowPending n (FetchPending # acts) = resultsFollowPending (Suc n) acts"
| "resultsFollowPending n (FetchResolved netFail count rnd # acts) =
     (0 < n \<and> resultsFollowPending (n - 1) acts)"
| "resultsFollowPending n (a # acts) = resultsFollowPending n acts"

text \<open>The calls of \<open>fetchInventory\<close> do not overlap: each starts when none is pending.\<close>

fun oneFetchAtATime :: "bool \<Rightarrow> Action list \<Rightarrow> bool" where
  "oneFetchAtATime pending [] = True"
| "oneFetchAtATime pending (FetchPending # acts) = (\<not> pending \<and> oneFetchAtATime True acts)"
| "oneFetchAtATime pending (FetchResolved netFail count rnd # acts) =
     (pending \<and> oneFetchAtATime False acts)"
| "oneFetchAtATime pending (a # acts) = oneFetchAtATime pending acts"

fun isFetch :: "Action \<Rightarrow> bool" where
  "isFetch FetchPending = True"
| "isFetch (FetchResolved netFail count rnd) = True"
| "isFetch a = False"

text \<open>
  What holds of the fetch status and the error while the calls of \<open>fetchInventory\<close> do not
  overlap: the status is \<open>loading\<close> while a call is pending, and there is an error only when
  the status is \<open>failed\<close>.
\<close>

definition fetchInv :: "bool \<Rightarrow> InventoryState \<Rightarrow> bool" where
  "fetchInv pending s \<longleftrightarrow>
     (pending \<longrightarrow> fetchStatus s = Loading) \<and> (fetchStatus s \<noteq> Failed \<longrightarrow> error s = None)"

fun isUpdateProduct :: "Action \<Rightarrow> bool" where
  "isUpdateProduct (UpdateProduct stamp u) = True"
| "isUpdateProduct a = False"

text \<open>
  The rule of the specification for the status: out of stock when the quantity is zero,
  low stock when it lies strictly between zero and the minimum stock, in stock otherwise.
\<close>

definition specStatus :: "number \<Rightarrow> number \<Rightarrow> StockStatus" where
  "specStatus q m =
     (if q = 0 then OutOfStock else if 0 < q \<and> q < m then LowStock else InStock)"

text \<open>Every product carries the status that \<open>computeStatus\<close> gives its quantity and minimum stock.\<close>

definition statusInv :: "InventoryState \<Rightarrow> bool" where
  "statusInv s \<longleftrightarrow>
     (\<forall>k p. entities s k = Some p \<longrightarrow> status p = computeStatus (quantity p) (minStock p))"

text \<open>
  What the adapter maintains: \<open>ids\<close> lists every key of \<open>entities\<close> once, and every entity
  is stored under its own id.
\<close>

definition adapterInv :: "InventoryState \<Rightarrow> bool" where
  "adapterInv s \<longleftrightarrow>
     distinct (ids s) \<and> set (ids s) = dom (entities s) \<and>
     (\<forall>k p. entities s k = Some p \<longrightarrow> pid p = k)"

text \<open>A collation to run the definitions with: comparison by code units.\<close>

fun codeUnitCompare :: "string \<Rightarrow> string \<Rightarrow> int" where
  "codeUnitCompare [] [] = 0"
| "codeUnitCompare [] (y # ys) = - 1"
| "codeUnitCompare (x # xs) [] = 1"
| "codeUnitCompare (x # xs) (y # ys) =
     (if (of_char x :: nat) < of_char y then - 1
      else if (of_char y :: nat) < of_char x then 1
      else codeUnitCompare xs ys)"

text \<open>A lower-casing to run the definitions with: the ASCII letters.\<close>

definition asciiLowerChar :: "char \<Rightarrow> char" where
  "asciiLowerChar c =
     (let n = (of_char c :: nat) in if 65 \<le> n \<and> n \<le> 90 then char_of (n + 32) else c)"

definition asciiLowerCase :: "string \<Rightarrow> string" where
  "asciiLowerCase s = map asciiLowerChar s"

text \<open>The product data of the test of \<open>updateStock\<close> in \<open>inventorySlice.test.ts\<close>.\<close>

definition stockTestData :: ProductData where
  "stockTestData =
     \<lparr> d_name = ''Stock Test'', d_sku = ''SKU-STOCK'', d_category = ''Electronics'',
       d_price = 100, d_quantity = 50, d_minStock = 10 \<rparr>"

text \<open>The product data of the test of \<open>addProduct.fulfilled\<close> in the same file.\<close>

definition newProductData :: ProductData where
  "newProductData =
     \<lparr> d_name = ''New Product'', d_sku = ''SKU-NEW'', d_category = ''Food'',
       d_price = 15, d_quantity = 100, d_minStock = 10 \<rparr>"

text \<open>The empty object as \<open>Partial<Product>\<close>.\<close>

definition noChanges :: ProductChanges where
  "noChanges =
     \<lparr> c_id = None, c_name = None, c_sku = None, c_category = None, c_price = None,
       c_quantity = None, c_minStock = None, c_status = None, c_lastUpdated = None \<rparr>"

text \<open>A run of the generator in which every product gets the same draw.\<close>

definition sameDraw :: "Draw \<Rightarrow> nat \<Rightarrow> Draw" where
  "sameDraw r index = r"

section \<open>Properties\<close>

subsection \<open>Sorting keeps the elements\<close>

lemma set_insertSorted: "set (insertSorted c x ys) = insert x (set ys)"
  by (induction ys) auto

lemma distinct_map_insertSorted:
  "distinct (map f (insertSorted c x ys)) \<longleftrightarrow> f x \<notin> f ` set ys \<and> distinct (map f ys)"
  by (induction ys) (auto simp: set_insertSorted)

lemma set_foldl_insertSorted:
  "set (foldl (\<lambda>acc x. insertSorted c x acc) acc xs) = set acc \<union> set xs"
  by (induction xs arbitrary: acc) (auto simp: set_insertSorted)

lemma distinct_map_foldl_insertSorted:
  "distinct (map f (foldl (\<lambda>acc x. insertSorted c x acc) acc xs)) \<longleftrightarrow>
   distinct (map f (acc @ xs))"
  by (induction xs arbitrary: acc) (auto simp: distinct_map_insertSorted set_insertSorted)

lemma set_sortWith: "set (sortWith c xs) = set xs"
  by (simp add: sortWith_def set_foldl_insertSorted)

lemma distinct_map_sortWith: "distinct (map f (sortWith c xs)) \<longleftrightarrow> distinct (map f xs)"
  by (simp add: sortWith_def distinct_map_foldl_insertSorted)


lemma set_keepFirst: "set (keepFirst xs) = set xs"
  by (simp add: keepFirst_def)

lemma distinct_keepFirst: "distinct (keepFirst xs)"
  by (simp add: keepFirst_def)

lemma keepFirst_distinct: "distinct xs \<Longrightarrow> keepFirst xs = xs"
  by (simp add: keepFirst_def distinct_remdups_id)

lemma map_pid_map_filter:
  "set ks \<subseteq> dom es \<Longrightarrow> (\<forall>k p. es k = Some p \<longrightarrow> pid p = k) \<Longrightarrow>
   map pid (List.map_filter es ks) = ks"
  by (induction ks) (auto simp:)

lemma resortEntities_set:
  assumes "set ks \<subseteq> dom es" and "\<forall>k p. es k = Some p \<longrightarrow> pid p = k"
  shows "set (resortEntities lc es ks) = set ks"
proof -
  have "set (resortEntities lc es ks) = set (map pid (List.map_filter es ks))"
    by (simp add: resortEntities_def set_sortWith)
  with assms show ?thesis by (simp add: map_pid_map_filter)
qed

lemma resortEntities_distinct:
  assumes "set ks \<subseteq> dom es" and "\<forall>k p. es k = Some p \<longrightarrow> pid p = k"
  shows "distinct (resortEntities lc es ks) \<longleftrightarrow> distinct ks"
proof -
  have "distinct (resortEntities lc es ks) \<longleftrightarrow> distinct (map pid (List.map_filter es ks))"
    by (simp add: resortEntities_def distinct_map_sortWith)
  with assms show ?thesis by (simp add: map_pid_map_filter)
qed



lemma digitChar_inj: "d < 10 \<Longrightarrow> e < 10 \<Longrightarrow> digitChar d = digitChar e \<Longrightarrow> d = e"
proof -
  assume a: "d < 10" "e < 10" "digitChar d = digitChar e"
  have dist: "distinct ''0123456789''" by simp
  have len: "length ''0123456789'' = 10" by simp
  from a show "d = e"
    unfolding digitChar_def using nth_eq_iff_index_eq [OF dist, of d e] len by simp
qed

lemma stringOfNat_nonempty: "stringOfNat n \<noteq> []"
  by (subst stringOfNat.simps) simp

lemma stringOfNat_length_ge2: "10 \<le> n \<Longrightarrow> 2 \<le> length (stringOfNat n)"
proof -
  assume "10 \<le> n"
  then have "stringOfNat n = stringOfNat (n div 10) @ [digitChar (n mod 10)]"
    by (subst stringOfNat.simps) simp
  moreover have "1 \<le> length (stringOfNat (n div 10))"
    using stringOfNat_nonempty [of "n div 10"] by (cases "stringOfNat (n div 10)") simp_all
  ultimately show ?thesis by simp
qed

lemma stringOfNat_inj: "stringOfNat n = stringOfNat m \<Longrightarrow> n = m"
proof (induction n arbitrary: m rule: stringOfNat.induct)
  case (1 n)
  show ?case
  proof (cases "n < 10")
    case True
    then have sn: "stringOfNat n = [digitChar n]" by (subst stringOfNat.simps) simp
    show ?thesis
    proof (cases "m < 10")
      case True
      then have "stringOfNat m = [digitChar m]" by (subst stringOfNat.simps) simp
      with sn "1.prems" have "digitChar n = digitChar m" by simp
      with \<open>n < 10\<close> \<open>m < 10\<close> show ?thesis by (rule digitChar_inj)
    next
      case False
      then have "2 \<le> length (stringOfNat m)" by (simp add: stringOfNat_length_ge2)
      with sn "1.prems" show ?thesis by simp
    qed
  next
    case False
    then have sn: "stringOfNat n = stringOfNat (n div 10) @ [digitChar (n mod 10)]"
      by (subst stringOfNat.simps) simp
    show ?thesis
    proof (cases "m < 10")
      case True
      then have "stringOfNat m = [digitChar m]" by (subst stringOfNat.simps) simp
      moreover from False have "2 \<le> length (stringOfNat n)" by (simp add: stringOfNat_length_ge2)
      ultimately show ?thesis using "1.prems" by simp
    next
      case mf: False
      then have sm: "stringOfNat m = stringOfNat (m div 10) @ [digitChar (m mod 10)]"
        by (subst stringOfNat.simps) simp
      from sn sm "1.prems" have e1: "stringOfNat (n div 10) = stringOfNat (m div 10)"
        and e2: "digitChar (n mod 10) = digitChar (m mod 10)" by simp_all
      from "1.IH" [OF False e1] have d: "n div 10 = m div 10" .
      have "n mod 10 = m mod 10" by (rule digitChar_inj [OF _ _ e2]) simp_all
      with d show ?thesis by (metis div_mult_mod_eq)
    qed
  qed
qed

subsection \<open>The adapter keeps ids and entities in step\<close>

lemma adapterInv_initial: "adapterInv initialState"
  by (simp add: adapterInv_def initialState_def)

lemma keyed_foldl_store:
  "(\<forall>k q. m k = Some q \<longrightarrow> pid q = k) \<Longrightarrow>
   foldl (\<lambda>m p. m(pid p \<mapsto> p)) m ps k = Some q \<Longrightarrow> pid q = k"
proof (induction ps arbitrary: m)
  case Nil
  then show ?case by simp
next
  case (Cons a ps)
  have "\<forall>k q. (m(pid a \<mapsto> a)) k = Some q \<longrightarrow> pid q = k"
    using Cons.prems(1) by simp
  from Cons.IH [OF this] Cons.prems(2) show ?case by simp
qed

lemma dom_foldl_store:
  "dom (foldl (\<lambda>m p. m(pid p \<mapsto> p)) m ps) = dom m \<union> pid ` set ps"
  by (induction ps arbitrary: m) auto

lemma adapterInv_setAll: "adapterInv (setAll lc ps s)"
proof -
  let ?es = "foldl (\<lambda>m p. m(pid p \<mapsto> p)) Map.empty ps"
  let ?ks = "keepFirst (map pid ps)"
  have keyed: "\<forall>k q. ?es k = Some q \<longrightarrow> pid q = k"
    using keyed_foldl_store [of Map.empty ps] by simp
  have sk: "set ?ks = dom ?es" by (simp add: set_keepFirst dom_foldl_store)
  then have sub: "set ?ks \<subseteq> dom ?es" by simp
  have "distinct (resortEntities lc ?es ?ks)"
    by (simp only: resortEntities_distinct [OF sub keyed] distinct_keepFirst)
  moreover have "set (resortEntities lc ?es ?ks) = dom ?es"
    by (simp only: resortEntities_set [OF sub keyed] sk)
  ultimately show ?thesis using keyed by (simp add: setAll_def adapterInv_def Let_def)
qed

lemma adapterInv_addOne:
  assumes "adapterInv s"
  shows "adapterInv (addOne lc p s)"
proof (cases "entities s (pid p) = None")
  case False
  then show ?thesis using assms by (simp add: addOne_def)
next
  case True
  define es where "es = (entities s)(pid p \<mapsto> p)"
  define ks where "ks = ids s @ [pid p]"
  from assms have keyed: "\<forall>k q. es k = Some q \<longrightarrow> pid q = k"
    by (simp add: adapterInv_def es_def)
  from assms have sk: "set ks = dom es" by (auto simp: adapterInv_def es_def ks_def)
  then have sub: "set ks \<subseteq> dom es" by simp
  from assms True have dk: "distinct ks" by (auto simp: adapterInv_def ks_def)
  have d: "distinct (resortEntities lc es ks)"
    using dk by (simp only: resortEntities_distinct [OF sub keyed])
  have e: "set (resortEntities lc es ks) = dom es"
    by (simp only: resortEntities_set [OF sub keyed] sk)
  have "addOne lc p s = s\<lparr>ids := resortEntities lc es ks, entities := es\<rparr>"
    using True by (simp add: addOne_def es_def ks_def Let_def)
  then show ?thesis using d e keyed by (simp add: adapterInv_def)
qed

lemma adapterInv_updateOne:
  assumes "adapterInv s"
  shows "adapterInv (updateOne lc u s)"
proof (cases "entities s (fst u)")
  case None
  then show ?thesis using assms by (simp add: updateOne_def)
next
  case (Some p)
  define p' where "p' = assignChanges (snd u) p"
  define es where "es = ((entities s)(fst u := None))(pid p' \<mapsto> p')"
  define ks where "ks = keepFirst (map (\<lambda>k. if k = fst u then pid p' else k) (ids s))"
  from assms have keyed: "\<forall>k q. es k = Some q \<longrightarrow> pid q = k"
    by (simp add: adapterInv_def es_def)
  from assms Some have "fst u \<in> set (ids s)" by (auto simp: adapterInv_def)
  then have "set ks = insert (pid p') (set (ids s) - {fst u})"
    by (auto simp: ks_def set_keepFirst)
  moreover have "dom es = insert (pid p') (dom (entities s) - {fst u})"
    by (auto simp: es_def)
  ultimately have sk: "set ks = dom es" using assms by (simp add: adapterInv_def)
  then have sub: "set ks \<subseteq> dom es" by simp
  have d: "distinct (resortEntities lc es ks)"
    by (simp only: resortEntities_distinct [OF sub keyed]) (simp add: ks_def distinct_keepFirst)
  have e: "set (resortEntities lc es ks) = dom es"
    by (simp only: resortEntities_set [OF sub keyed] sk)
  have "updateOne lc u s = s\<lparr>ids := resortEntities lc es ks, entities := es\<rparr>"
    unfolding es_def ks_def p'_def using Some by (simp add: updateOne_def Let_def)
  then show ?thesis using d e keyed by (simp add: adapterInv_def)
qed

lemma adapterInv_removeOne:
  assumes "adapterInv s"
  shows "adapterInv (removeOne k s)"
proof (cases "entities s k = None")
  case True
  then show ?thesis using assms by (simp add: removeOne_def)
next
  case False
  then have "removeOne k s =
      s\<lparr>ids := filter (\<lambda>i. ((entities s)(k := None)) i \<noteq> None) (ids s),
        entities := (entities s)(k := None)\<rparr>"
    by (simp add: removeOne_def Let_def)
  then show ?thesis using assms by (auto simp: adapterInv_def split: if_splits)
qed

lemma adapterInv_updateStock:
  assumes "adapterInv s"
  shows "adapterInv (updateStock stamp k q s)"
proof (cases "entities s k")
  case None
  then show ?thesis using assms by (simp add: updateStock_def)
next
  case (Some p)
  then show ?thesis using assms by (auto simp: updateStock_def adapterInv_def)
qed

lemma adapterInv_reducer: "adapterInv s \<Longrightarrow> adapterInv (inventoryReducer lc s a)"
proof (cases a)
  case (SetFilter key v)
  assume "adapterInv s"
  then show ?thesis using SetFilter by (cases key) (simp_all add: setFilter_def adapterInv_def)
next
  case ClearFilters
  assume "adapterInv s"
  then show ?thesis using ClearFilters by (simp add: clearFilters_def adapterInv_def)
next
  case (SetSort k ord)
  assume "adapterInv s"
  then show ?thesis using SetSort by (simp add: setSort_def adapterInv_def)
next
  case (UpdateStock stamp k q)
  assume "adapterInv s"
  then show ?thesis using UpdateStock by (simp add: adapterInv_updateStock)
next
  case (AddProduct now stamp productData)
  assume "adapterInv s"
  then show ?thesis using AddProduct
    by (simp add: dispatchAddProduct_def addProduct_def addProduct_fulfilled_def Let_def
        adapterInv_addOne)
next
  case (UpdateProduct stamp u)
  assume "adapterInv s"
  then show ?thesis using UpdateProduct
    by (simp add: dispatchUpdateProduct_def updateProduct_def updateProduct_fulfilled_def
        adapterInv_updateOne)
next
  case (DeleteProduct k)
  assume "adapterInv s"
  then show ?thesis using DeleteProduct
    by (simp add: dispatchDeleteProduct_def deleteProduct_def deleteProduct_fulfilled_def
        adapterInv_removeOne)
next
  case FetchPending
  assume "adapterInv s"
  then show ?thesis using FetchPending by (simp add: fetchInventory_pending_def adapterInv_def)
next
  case (FetchResolved netFail count rnd)
  assume inv: "adapterInv s"
  show ?thesis
  proof (cases "fetchInventory netFail count rnd")
    case (Fulfilled payload)
    with FetchResolved show ?thesis
      by (simp add: resolveFetchInventory_def fetchInventory_fulfilled_def adapterInv_setAll)
  next
    case (Rejected payload)
    with inv FetchResolved show ?thesis
      by (simp add: resolveFetchInventory_def fetchInventory_rejected_def adapterInv_def)
  qed
qed

lemma adapterInv_foldl:
  "adapterInv s \<Longrightarrow> adapterInv (foldl (inventoryReducer lc) s acts)"
  by (induction acts arbitrary: s) (simp_all add: adapterInv_reducer)

lemma adapterInv_run: "adapterInv (run lc acts)"
  by (simp add: run_def adapterInv_foldl adapterInv_initial)

lemma map_Some_map_filter:
  "set ks \<subseteq> dom es \<Longrightarrow> map Some (List.map_filter es ks) = map es ks"
  by (induction ks) (auto simp:)

lemma selectAll_lookup:
  "adapterInv s \<Longrightarrow> map Some (selectAllProducts s) = map (entities s) (ids s)"
  by (simp add: selectAllProducts_def adapterInv_def map_Some_map_filter)

lemma selectAll_ids: "adapterInv s \<Longrightarrow> map pid (selectAllProducts s) = ids s"
  by (simp add: selectAllProducts_def adapterInv_def map_pid_map_filter)

subsection \<open>Small stores\<close>

lemma stringOfNat_digit: "n < 10 \<Longrightarrow> stringOfNat n = [digitChar n]"
  by (subst stringOfNat.simps) simp

lemma sortWith_single: "sortWith c [x] = [x]"
  by (simp add: sortWith_def)

lemma addOne_initial:
  "addOne lc p initialState = initialState\<lparr>ids := [pid p], entities := [pid p \<mapsto> p]\<rparr>"
  by (simp add: addOne_def initialState_def resortEntities_def
      sortWith_single)

lemma dispatchAddProduct_stockTest:
  "dispatchAddProduct lc 7 stamp stockTestData initialState =
     initialState\<lparr>ids := [''PROD-7''],
       entities := [''PROD-7'' \<mapsto>
         \<lparr> pid = ''PROD-7'', name = ''Stock Test'', sku = ''SKU-STOCK'',
           category = ''Electronics'', price = 100, quantity = 50, minStock = 10,
           status = InStock, lastUpdated = stamp \<rparr>]\<rparr>"
  by (simp add: dispatchAddProduct_def addProduct_def addProduct_fulfilled_def addOne_initial
      stockTestData_def computeStatus_def stringOfNat_digit digitChar_def)


lemma adapterInv_dispatchAddProduct:
  "adapterInv s \<Longrightarrow> adapterInv (dispatchAddProduct lc now stamp productData s)"
  using adapterInv_reducer [of s lc "AddProduct now stamp productData"] by simp


text \<open>
  Two products added one after the other are listed by name, not in the order of their
  arrival (here with the comparison by code units).
\<close>

lemma added_products_sorted_by_name:
  "ids (run codeUnitCompare
     [AddProduct 7 ''2024-01-01'' stockTestData, AddProduct 8 ''2024-01-02'' newProductData])
   = [''PROD-8'', ''PROD-7''] \<and>
   map name (selectAllProducts (run codeUnitCompare
     [AddProduct 7 ''2024-01-01'' stockTestData, AddProduct 8 ''2024-01-02'' newProductData]))
   = [''New Product'', ''Stock Test'']"
proof -
  have r: "run codeUnitCompare
     [AddProduct 7 ''2024-01-01'' stockTestData, AddProduct 8 ''2024-01-02'' newProductData]
    = dispatchAddProduct codeUnitCompare 8 ''2024-01-02'' newProductData
        (dispatchAddProduct codeUnitCompare 7 ''2024-01-01'' stockTestData initialState)"
    by (simp add: run_def)
  show ?thesis
    by (simp only: r dispatchAddProduct_stockTest)
       (simp add: dispatchAddProduct_def addProduct_def addProduct_fulfilled_def addOne_def
          newProductData_def computeStatus_def stringOfNat_digit digitChar_def Let_def
          resortEntities_def sortWith_def sortComparer_def selectAllProducts_def)
qed

subsection \<open>A failing load\<close>

text \<open>
  Claim C4. A load that fails leaves \<open>ids\<close> and \<open>entities\<close> as they were, so the number of
  products is the same; the fetch status is \<open>failed\<close> and the error is the failure message.
  This holds for the whole dispatch (the \<open>pending\<close> action, then \<open>rejected\<close> with the message
  of the network error) and for the \<open>rejected\<close> case alone with any message.
\<close>

theorem fetch_failure_keeps_collection:
  "ids (dispatchFetchInventory lc True count rnd s) = ids s \<and>
   entities (dispatchFetchInventory lc True count rnd s) = entities s \<and>
   length (selectAllProducts (dispatchFetchInventory lc True count rnd s)) =
     length (selectAllProducts s) \<and>
   fetchStatus (dispatchFetchInventory lc True count rnd s) = Failed \<and>
   error (dispatchFetchInventory lc True count rnd s) =
     Some ''Network error: Failed to fetch inventory'' \<and>
   ids (fetchInventory_rejected msg s) = ids s \<and>
   entities (fetchInventory_rejected msg s) = entities s \<and>
   fetchStatus (fetchInventory_rejected msg s) = Failed \<and>
   error (fetchInventory_rejected msg s) = Some msg"
  by (simp add: dispatchFetchInventory_def resolveFetchInventory_def fetchInventory_def
      fetchInventory_rejected_def fetchInventory_pending_def selectAllProducts_def)

subsection \<open>Rounding\<close>













text \<open>One tenth is not a double either; the nearest one is what \<open>0.1\<close> denotes.\<close>

lemma bitlen_nine: "bitlen 9 = 4"
  using bitlen_twopow_add_eq [of 1 3] by simp

lemma floor_tenth_scaled: "\<lfloor>36028797018963968 / 5 :: rat\<rfloor> = 7205759403792793"
  by (rule floor_unique) simp_all

lemma roundDouble_tenth: "roundDouble (1 / 10) = Some (3602879701896397 / 36028797018963968)"
  by (simp add: roundDouble_def log2floor_def pow2_def roundHalfEven_def Let_def
      bitlen_nine floor_tenth_scaled)

subsection \<open>Statistics\<close>






lemma status_buckets:
  "length (filter (\<lambda>p. status p = InStock) ps) + length (filter (\<lambda>p. status p = LowStock) ps)
   + length (filter (\<lambda>p. status p = OutOfStock) ps) = length ps"
proof (induction ps)
  case Nil
  show ?case by simp
next
  case (Cons p ps)
  then show ?case by (cases "status p") simp_all
qed

lemma length_selectAll:
  assumes "adapterInv s"
  shows "length (selectAllProducts s) = card (dom (entities s))"
proof -
  from assms have d: "distinct (ids s)" and k: "set (ids s) = dom (entities s)"
    by (simp_all add: adapterInv_def)
  have "length (selectAllProducts s) = length (ids s)"
    using assms by (metis selectAll_ids length_map)
  also have "\<dots> = card (set (ids s))" using d by (simp add: distinct_card)
  finally show ?thesis by (simp only: k)
qed

text \<open>
  Claim C10. The three bucket counts of the statistics add up to the number of products
  in the store (the length of \<open>selectAllProducts\<close>, which the total reports, and in a state
  of the adapter the number of keys of \<open>entities\<close>): every product carries exactly one of
  the three status tags.
\<close>

theorem stats_buckets_partition:
  "inStock (selectInventoryStats s) + lowStock (selectInventoryStats s)
     + outOfStock (selectInventoryStats s) = length (selectAllProducts s) \<and>
   total (selectInventoryStats s) = length (selectAllProducts s) \<and>
   (adapterInv s \<longrightarrow>
      inStock (selectInventoryStats s) + lowStock (selectInventoryStats s)
        + outOfStock (selectInventoryStats s) = card (dom (entities s)))"
  by (simp add: selectInventoryStats_def Let_def status_buckets length_selectAll)

text \<open>
  Claim C10 at a store holding the product of the test: the buckets add up to 1, the
  number of its entities.
\<close>

theorem stats_buckets_partition_witness:
  "adapterInv (dispatchAddProduct codeUnitCompare 7 ''2024-01-01'' stockTestData initialState) \<and>
   inStock (selectInventoryStats
     (dispatchAddProduct codeUnitCompare 7 ''2024-01-01'' stockTestData initialState))
   + lowStock (selectInventoryStats
     (dispatchAddProduct codeUnitCompare 7 ''2024-01-01'' stockTestData initialState))
   + outOfStock (selectInventoryStats
     (dispatchAddProduct codeUnitCompare 7 ''2024-01-01'' stockTestData initialState)) = 1 \<and>
   card (dom (entities
     (dispatchAddProduct codeUnitCompare 7 ''2024-01-01'' stockTestData initialState))) = 1"
proof -
  let ?s = "dispatchAddProduct codeUnitCompare 7 ''2024-01-01'' stockTestData initialState"
  have inv: "adapterInv ?s" by (simp add: adapterInv_dispatchAddProduct adapterInv_initial)
  have c: "card (dom (entities ?s)) = 1"
    by (simp only: dispatchAddProduct_stockTest) simp
  from stats_buckets_partition [of ?s] inv
  have "inStock (selectInventoryStats ?s) + lowStock (selectInventoryStats ?s)
        + outOfStock (selectInventoryStats ?s) = card (dom (entities ?s))" by blast
  with inv c show ?thesis by simp
qed

subsection \<open>The filtered products\<close>

lemma matchesFilter_cleared: "matchesFilter lower clearedFilter p"
  by (simp add: matchesFilter_def clearedFilter_def)

text \<open>
  Claim C6. With the filter \<open>{category: 'all', status: 'all', searchTerm: ''}\<close> the filtered
  products are all the products.
\<close>

theorem filtered_identity:
  "filterBy s = clearedFilter \<Longrightarrow> selectFilteredProducts lower s = selectAllProducts s"
  by (simp add: selectFilteredProducts_def matchesFilter_cleared)

text \<open>
  Claim C6 at a store holding the product of the test: its filter is the cleared one and
  its one product is listed by both selectors.
\<close>

theorem filtered_identity_witness:
  "filterBy (dispatchAddProduct codeUnitCompare 7 ''2024-01-01'' stockTestData initialState)
     = clearedFilter \<and>
   selectFilteredProducts asciiLowerCase
     (dispatchAddProduct codeUnitCompare 7 ''2024-01-01'' stockTestData initialState)
     = selectAllProducts
         (dispatchAddProduct codeUnitCompare 7 ''2024-01-01'' stockTestData initialState) \<and>
   length (selectAllProducts
     (dispatchAddProduct codeUnitCompare 7 ''2024-01-01'' stockTestData initialState)) = 1"
proof -
  have f: "filterBy (dispatchAddProduct codeUnitCompare 7 ''2024-01-01'' stockTestData initialState)
     = clearedFilter"
    by (simp only: dispatchAddProduct_stockTest) (simp add: initialState_def)
  have l: "length (selectAllProducts
     (dispatchAddProduct codeUnitCompare 7 ''2024-01-01'' stockTestData initialState)) = 1"
    by (simp only: dispatchAddProduct_stockTest)
       (simp add: selectAllProducts_def)
  from f l filtered_identity [OF f] show ?thesis by simp
qed


subsection \<open>Deleting a product\<close>

text \<open>
  Claim C8. In a state of the adapter (the ids are the keys of the entities, each once,
  and every product is stored under its id: \<open>adapterInv\<close>, which holds after every run
  of the store), deleting an id always succeeds; afterwards the id is neither a key of
  \<open>entities\<close> nor in \<open>ids\<close>, no product listed by \<open>selectAllProducts\<close> has it, and the other
  entities are as before. Deleting an id that is absent changes nothing, so the number of
  products is the same.
\<close>

theorem delete_removes_product:
  assumes "adapterInv s"
  shows "deleteProduct k = Fulfilled k \<and>
    entities (dispatchDeleteProduct k s) k = None \<and>
    k \<notin> set (ids (dispatchDeleteProduct k s)) \<and>
    (\<forall>p \<in> set (selectAllProducts (dispatchDeleteProduct k s)). pid p \<noteq> k) \<and>
    (\<forall>j. j \<noteq> k \<longrightarrow> entities (dispatchDeleteProduct k s) j = entities s j) \<and>
    (entities s k = None \<longrightarrow>
       dispatchDeleteProduct k s = s \<and>
       length (selectAllProducts (dispatchDeleteProduct k s)) = length (selectAllProducts s))"
proof -
  let ?t = "dispatchDeleteProduct k s"
  have t: "?t = removeOne k s"
    by (simp add: dispatchDeleteProduct_def deleteProduct_def deleteProduct_fulfilled_def)
  have inv: "adapterInv ?t" using assms by (simp add: t adapterInv_removeOne)
  have gone: "entities ?t k = None"
    by (simp add: t removeOne_def Let_def)
  have noid: "k \<notin> set (ids ?t)"
    using inv gone by (auto simp: adapterInv_def)
  have "map pid (selectAllProducts ?t) = ids ?t" using inv by (rule selectAll_ids)
  with noid have "k \<notin> pid ` set (selectAllProducts ?t)" by (metis set_map)
  then have nop: "\<forall>p \<in> set (selectAllProducts ?t). pid p \<noteq> k" by auto
  have others: "\<forall>j. j \<noteq> k \<longrightarrow> entities ?t j = entities s j"
    by (simp add: t removeOne_def Let_def)
  have absent: "entities s k = None \<longrightarrow> ?t = s"
    by (simp add: t removeOne_def)
  from gone noid nop others absent show ?thesis by (simp add: deleteProduct_def)
qed

text \<open>
  Claim C8 at a store holding the product \<open>PROD-7\<close>: deleting \<open>PROD-7\<close> empties the store,
  deleting the absent \<open>PROD-9\<close> changes nothing.
\<close>

theorem delete_removes_product_witness:
  "adapterInv (dispatchAddProduct codeUnitCompare 7 ''2024-01-01'' stockTestData initialState) \<and>
   entities (dispatchAddProduct codeUnitCompare 7 ''2024-01-01'' stockTestData initialState)
     ''PROD-7'' \<noteq> None \<and>
   entities (dispatchDeleteProduct ''PROD-7''
     (dispatchAddProduct codeUnitCompare 7 ''2024-01-01'' stockTestData initialState))
     ''PROD-7'' = None \<and>
   ids (dispatchDeleteProduct ''PROD-7''
     (dispatchAddProduct codeUnitCompare 7 ''2024-01-01'' stockTestData initialState)) = [] \<and>
   entities (dispatchAddProduct codeUnitCompare 7 ''2024-01-01'' stockTestData initialState)
     ''PROD-9'' = None \<and>
   dispatchDeleteProduct ''PROD-9''
     (dispatchAddProduct codeUnitCompare 7 ''2024-01-01'' stockTestData initialState)
   = dispatchAddProduct codeUnitCompare 7 ''2024-01-01'' stockTestData initialState"
proof -
  let ?s = "dispatchAddProduct codeUnitCompare 7 ''2024-01-01'' stockTestData initialState"
  have inv: "adapterInv ?s" by (simp add: adapterInv_dispatchAddProduct adapterInv_initial)
  have here: "entities ?s ''PROD-7'' \<noteq> None"
    by (simp only: dispatchAddProduct_stockTest) simp
  have absent: "entities ?s ''PROD-9'' = None"
    by (simp only: dispatchAddProduct_stockTest) (simp add: initialState_def)
  have idsS: "ids ?s = [''PROD-7'']"
    by (simp only: dispatchAddProduct_stockTest) simp
  have a: "entities (dispatchDeleteProduct ''PROD-7'' ?s) ''PROD-7'' = None"
    and b: "''PROD-7'' \<notin> set (ids (dispatchDeleteProduct ''PROD-7'' ?s))"
    using delete_removes_product [OF inv, of "''PROD-7''"] by simp_all
  have "set (ids (dispatchDeleteProduct ''PROD-7'' ?s)) \<subseteq> set (ids ?s)"
    by (auto simp: dispatchDeleteProduct_def deleteProduct_def deleteProduct_fulfilled_def
        removeOne_def Let_def)
  with b idsS have c: "ids (dispatchDeleteProduct ''PROD-7'' ?s) = []"
    by (cases "ids (dispatchDeleteProduct ''PROD-7'' ?s)") auto
  have d: "dispatchDeleteProduct ''PROD-9'' ?s = ?s"
    using delete_removes_product [OF inv, of "''PROD-9''"] absent by simp
  from inv here a c absent d show ?thesis by simp
qed


subsection \<open>Updating the stock\<close>

text \<open>
  Claim C2, as stated, asks \<open>updateStock\<close> to fail with a not-found error when the id is
  absent. The reducer has no failure: it returns a state for every payload, and for an
  absent id it returns the state it was given. Here the id \<open>PROD-7\<close> is absent from the
  initial state and the state comes back unchanged.
\<close>

theorem updateStock_absent_counterexample:
  "entities initialState ''PROD-7'' = None \<and>
   updateStock ''2024-01-02'' ''PROD-7'' 5 initialState = initialState"
  by (simp add: updateStock_def initialState_def)


text \<open>
  Claim C2, amended. When the id is absent, \<open>updateStock\<close> returns the state unchanged (no
  error is raised). When the id is present, the entity gets the new quantity, the status
  computed from the new quantity and its minimum stock (zero: out of stock, below the
  minimum stock: low stock, else in stock) and the new timestamp; every other entity,
  the ids, the fetch status and the error are as before.
\<close>

theorem updateStock_effect:
  "(entities s k = None \<longrightarrow> updateStock stamp k q s = s) \<and>
   (\<forall>p. entities s k = Some p \<longrightarrow>
      entities (updateStock stamp k q s) k =
        Some (p\<lparr>quantity := q, status := computeStatus q (minStock p), lastUpdated := stamp\<rparr>) \<and>
      (\<forall>j. j \<noteq> k \<longrightarrow> entities (updateStock stamp k q s) j = entities s j) \<and>
      ids (updateStock stamp k q s) = ids s \<and>
      fetchStatus (updateStock stamp k q s) = fetchStatus s \<and>
      error (updateStock stamp k q s) = error s)"
  by (simp add: updateStock_def computeStatus_def)


text \<open>
  Claim C2, amended, at a store holding the product \<open>PROD-7\<close> (quantity 50, minimum stock
  10): a new quantity for the absent \<open>PROD-9\<close> changes nothing, the quantity 5 for
  \<open>PROD-7\<close> makes it low in stock.
\<close>

theorem updateStock_effect_witness:
  "entities (dispatchAddProduct codeUnitCompare 7 ''2024-01-01'' stockTestData initialState)
     ''PROD-9'' = None \<and>
   updateStock ''2024-01-02'' ''PROD-9'' 5
     (dispatchAddProduct codeUnitCompare 7 ''2024-01-01'' stockTestData initialState)
   = dispatchAddProduct codeUnitCompare 7 ''2024-01-01'' stockTestData initialState \<and>
   entities (updateStock ''2024-01-02'' ''PROD-7'' 5
     (dispatchAddProduct codeUnitCompare 7 ''2024-01-01'' stockTestData initialState)) ''PROD-7''
   = Some \<lparr> pid = ''PROD-7'', name = ''Stock Test'', sku = ''SKU-STOCK'',
           category = ''Electronics'', price = 100, quantity = 5, minStock = 10,
           status = LowStock, lastUpdated = ''2024-01-02'' \<rparr>"
proof -
  let ?s = "dispatchAddProduct codeUnitCompare 7 ''2024-01-01'' stockTestData initialState"
  have absent: "entities ?s ''PROD-9'' = None"
    by (simp only: dispatchAddProduct_stockTest) (simp add: initialState_def)
  have here: "entities ?s ''PROD-7'' =
    Some \<lparr> pid = ''PROD-7'', name = ''Stock Test'', sku = ''SKU-STOCK'',
           category = ''Electronics'', price = 100, quantity = 50, minStock = 10,
           status = InStock, lastUpdated = ''2024-01-01'' \<rparr>"
    by (simp only: dispatchAddProduct_stockTest) simp
  have a: "updateStock ''2024-01-02'' ''PROD-9'' 5 ?s = ?s"
    using updateStock_effect [of ?s "''PROD-9''" "''2024-01-02''" 5] absent by simp
  have b: "entities (updateStock ''2024-01-02'' ''PROD-7'' 5 ?s) ''PROD-7''
   = Some \<lparr> pid = ''PROD-7'', name = ''Stock Test'', sku = ''SKU-STOCK'',
           category = ''Electronics'', price = 100, quantity = 5, minStock = 10,
           status = LowStock, lastUpdated = ''2024-01-02'' \<rparr>"
    using updateStock_effect [of ?s "''PROD-7''" "''2024-01-02''" 5] here
    by (simp add: computeStatus_def)
  from absent a b show ?thesis by simp
qed

subsection \<open>Adding a product\<close>

text \<open>
  Claim C3, as stated, asks \<open>addProduct\<close> to fail with a validation error on data with a
  missing name, sku or category or a negative price or quantity, and to leave the state
  unchanged. The thunk checks nothing. Here the name, the sku and the category are empty
  (the type of the argument has no optional field) and the price and the quantity are
  negative: the thunk is fulfilled, and the store, empty before, holds the product.
\<close>

theorem add_invalid_counterexample:
  "addProduct 7 ''2024-01-01''
     \<lparr> d_name = [], d_sku = [], d_category = [], d_price = - 1, d_quantity = - 1,
       d_minStock = 10 \<rparr>
   = Fulfilled
       \<lparr> pid = ''PROD-7'', name = [], sku = [], category = [], price = - 1, quantity = - 1,
         minStock = 10, status = LowStock, lastUpdated = ''2024-01-01'' \<rparr> \<and>
   ids (dispatchAddProduct codeUnitCompare 7 ''2024-01-01''
     \<lparr> d_name = [], d_sku = [], d_category = [], d_price = - 1, d_quantity = - 1,
       d_minStock = 10 \<rparr> initialState) = [''PROD-7''] \<and>
   ids initialState = []"
  by (simp add: dispatchAddProduct_def addProduct_def addProduct_fulfilled_def addOne_initial
      computeStatus_def stringOfNat_digit digitChar_def Let_def)
     (simp add: initialState_def)


text \<open>
  Claim C3, amended. \<open>addProduct\<close> validates nothing: for every product data, also with an
  empty name, sku or category or a negative price or quantity, the thunk is fulfilled
  with a product that carries the data as given, under the id made from the clock. The
  store then holds that product and so has changed, unless the id was already a key, in
  which case the state is unchanged.
\<close>

theorem add_accepts_any_data:
  "(\<exists>p. addProduct now stamp productData = Fulfilled p \<and>
        pid p = ''PROD-'' @ stringOfNat now \<and>
        name p = d_name productData \<and> sku p = d_sku productData \<and>
        category p = d_category productData \<and> price p = d_price productData \<and>
        quantity p = d_quantity productData \<and> minStock p = d_minStock productData \<and>
        (entities s (pid p) = None \<longrightarrow>
           entities (dispatchAddProduct lc now stamp productData s) (pid p) = Some p \<and>
           dispatchAddProduct lc now stamp productData s \<noteq> s) \<and>
        (entities s (pid p) \<noteq> None \<longrightarrow> dispatchAddProduct lc now stamp productData s = s))"
proof -
  obtain p where p: "addProduct now stamp productData = Fulfilled p"
    by (simp add: addProduct_def Let_def)
  then have fields: "pid p = ''PROD-'' @ stringOfNat now" "name p = d_name productData"
    "sku p = d_sku productData" "category p = d_category productData"
    "price p = d_price productData" "quantity p = d_quantity productData"
    "minStock p = d_minStock productData"
    by (auto simp: addProduct_def Let_def)
  have d: "dispatchAddProduct lc now stamp productData s = addOne lc p s"
    using p by (simp add: dispatchAddProduct_def addProduct_fulfilled_def)
  have new: "entities s (pid p) = None \<longrightarrow>
      entities (addOne lc p s) (pid p) = Some p \<and> addOne lc p s \<noteq> s"
  proof
    assume n: "entities s (pid p) = None"
    then have "entities (addOne lc p s) (pid p) = Some p" by (simp add: addOne_def Let_def)
    with n show "entities (addOne lc p s) (pid p) = Some p \<and> addOne lc p s \<noteq> s" by auto
  qed
  have old: "entities s (pid p) \<noteq> None \<longrightarrow> addOne lc p s = s"
    by (simp add: addOne_def)
  from p fields new old d show ?thesis by simp
qed


text \<open>
  Claim C3, amended, at the data with empty fields and negative numbers, which the empty
  store accepts, and at a second product made at the clock reading of the first, which the
  store ignores.
\<close>

theorem add_accepts_any_data_witness:
  "entities initialState ''PROD-7'' = None \<and>
   entities (dispatchAddProduct codeUnitCompare 7 ''2024-01-01''
     \<lparr> d_name = [], d_sku = [], d_category = [], d_price = - 1, d_quantity = - 1,
       d_minStock = 10 \<rparr> initialState) ''PROD-7'' \<noteq> None \<and>
   dispatchAddProduct codeUnitCompare 7 ''2024-01-02'' stockTestData
     (dispatchAddProduct codeUnitCompare 7 ''2024-01-01'' stockTestData initialState)
   = dispatchAddProduct codeUnitCompare 7 ''2024-01-01'' stockTestData initialState"
proof -
  let ?bad = "\<lparr> d_name = [], d_sku = [], d_category = [], d_price = - 1, d_quantity = - 1,
       d_minStock = 10 \<rparr>"
  let ?s = "dispatchAddProduct codeUnitCompare 7 ''2024-01-01'' stockTestData initialState"
  have seven: "''PROD-'' @ stringOfNat 7 = ''PROD-7''"
    by (simp add: stringOfNat_digit digitChar_def)
  have absent: "entities initialState ''PROD-7'' = None" by (simp add: initialState_def)
  have here: "entities ?s ''PROD-7'' \<noteq> None"
    by (simp only: dispatchAddProduct_stockTest) simp
  have a: "entities (dispatchAddProduct codeUnitCompare 7 ''2024-01-01'' ?bad initialState)
      ''PROD-7'' \<noteq> None"
    using add_accepts_any_data [of 7 "''2024-01-01''" ?bad initialState codeUnitCompare]
      absent seven by auto
  have b: "dispatchAddProduct codeUnitCompare 7 ''2024-01-02'' stockTestData ?s = ?s"
    using add_accepts_any_data [of 7 "''2024-01-02''" stockTestData ?s codeUnitCompare]
      here seven by auto
  from absent a b show ?thesis by simp
qed

subsection \<open>The ids of added products\<close>

text \<open>
  Claim C7, as stated, asks every add to assign an id that no product in the store has.
  The id is made from the clock alone. Here a product is added at the clock reading 7 and
  a second call of \<open>addProduct\<close> reads the same clock: its product gets the id \<open>PROD-7\<close>,
  which is in the store already.
\<close>

theorem add_same_clock_counterexample:
  "addProduct 7 ''2024-01-02'' stockTestData
   = Fulfilled
       \<lparr> pid = ''PROD-7'', name = ''Stock Test'', sku = ''SKU-STOCK'',
         category = ''Electronics'', price = 100, quantity = 50, minStock = 10,
         status = InStock, lastUpdated = ''2024-01-02'' \<rparr> \<and>
   ''PROD-7'' \<in> set (ids
     (dispatchAddProduct codeUnitCompare 7 ''2024-01-01'' stockTestData initialState))"
proof -
  have "addProduct 7 ''2024-01-02'' stockTestData
   = Fulfilled
       \<lparr> pid = ''PROD-7'', name = ''Stock Test'', sku = ''SKU-STOCK'',
         category = ''Electronics'', price = 100, quantity = 50, minStock = 10,
         status = InStock, lastUpdated = ''2024-01-02'' \<rparr>"
    by (simp add: addProduct_def stockTestData_def computeStatus_def stringOfNat_digit
        digitChar_def)
  moreover have "''PROD-7'' \<in> set (ids
     (dispatchAddProduct codeUnitCompare 7 ''2024-01-01'' stockTestData initialState))"
    by (simp only: dispatchAddProduct_stockTest) simp
  ultimately show ?thesis by simp
qed


lemma dispatchAddProduct_addOne:
  "\<exists>p. pid p = ''PROD-'' @ stringOfNat now \<and>
       dispatchAddProduct lc now stamp productData s = addOne lc p s"
proof -
  obtain p where p: "addProduct now stamp productData = Fulfilled p"
    by (simp add: addProduct_def Let_def)
  then have "pid p = ''PROD-'' @ stringOfNat now"
    by (auto simp: addProduct_def Let_def)
  moreover have "dispatchAddProduct lc now stamp productData s = addOne lc p s"
    using p by (simp add: dispatchAddProduct_def addProduct_fulfilled_def)
  ultimately show ?thesis by blast
qed

lemma addOne_ids:
  assumes "adapterInv s"
  shows "set (ids (addOne lc p s)) = insert (pid p) (set (ids s))"
proof -
  have "adapterInv (addOne lc p s)" using assms by (rule adapterInv_addOne)
  then have "set (ids (addOne lc p s)) = dom (entities (addOne lc p s))"
    by (simp add: adapterInv_def)
  also have "\<dots> = insert (pid p) (dom (entities s))"
    by (auto simp: addOne_def Let_def)
  finally show ?thesis using assms by (simp add: adapterInv_def)
qed

lemma adapterInv_dispatchAddProducts:
  "adapterInv s \<Longrightarrow> adapterInv (dispatchAddProducts lc calls s)"
  unfolding dispatchAddProducts_def
  by (induction calls arbitrary: s) (auto simp: adapterInv_dispatchAddProduct)

lemma dispatchAddProducts_ids:
  "adapterInv s \<Longrightarrow>
   set (ids (dispatchAddProducts lc calls s)) =
     set (ids s) \<union> (\<lambda>c. ''PROD-'' @ stringOfNat (fst c)) ` set calls"
  unfolding dispatchAddProducts_def
proof (induction calls arbitrary: s)
  case Nil
  show ?case by simp
next
  case (Cons c calls)
  obtain now stamp productData where c: "c = (now, stamp, productData)" by (cases c)
  obtain p where p: "pid p = ''PROD-'' @ stringOfNat now"
    "dispatchAddProduct lc now stamp productData s = addOne lc p s"
    using dispatchAddProduct_addOne by blast
  have inv: "adapterInv (addOne lc p s)" using Cons.prems by (rule adapterInv_addOne)
  have "set (ids (addOne lc p s)) = insert (pid p) (set (ids s))"
    using Cons.prems by (rule addOne_ids)
  with Cons.IH [OF inv] p c show ?case by auto
qed


text \<open>
  Claim C7, amended. In a state of the adapter (\<open>adapterInv\<close>: every state the store
  reaches), any sequence of adds leaves the ids pairwise distinct: they are the ids that
  were there and the ids of the calls. The id of a call is \<open>PROD-\<close> followed by the clock
  reading, so calls at different clock readings get different ids; the id is not chosen
  against the ids in the store, and an add whose id is already a key changes nothing.
\<close>

theorem adds_keep_ids_unique:
  assumes "adapterInv s"
  shows "distinct (ids (dispatchAddProducts lc calls s)) \<and>
    set (ids (dispatchAddProducts lc calls s)) =
      set (ids s) \<union> (\<lambda>c. ''PROD-'' @ stringOfNat (fst c)) ` set calls \<and>
    (entities s (''PROD-'' @ stringOfNat now) \<noteq> None \<longrightarrow>
       dispatchAddProduct lc now stamp productData s = s) \<and>
    (''PROD-'' @ stringOfNat now = ''PROD-'' @ stringOfNat now' \<longleftrightarrow> now = now')"
proof -
  have "adapterInv (dispatchAddProducts lc calls s)"
    using assms by (rule adapterInv_dispatchAddProducts)
  then have d: "distinct (ids (dispatchAddProducts lc calls s))" by (simp add: adapterInv_def)
  have e: "set (ids (dispatchAddProducts lc calls s)) =
      set (ids s) \<union> (\<lambda>c. ''PROD-'' @ stringOfNat (fst c)) ` set calls"
    using assms by (rule dispatchAddProducts_ids)
  have f: "entities s (''PROD-'' @ stringOfNat now) \<noteq> None \<longrightarrow>
       dispatchAddProduct lc now stamp productData s = s"
    by (simp add: dispatchAddProduct_def addProduct_def addProduct_fulfilled_def Let_def
        addOne_def)
  have g: "''PROD-'' @ stringOfNat now = ''PROD-'' @ stringOfNat now' \<longleftrightarrow> now = now'"
    using stringOfNat_inj by auto
  from d e f g show ?thesis by blast
qed


text \<open>
  Claim C7, amended, at three adds into the empty store, two of them at the clock reading
  7: the store ends with the two ids \<open>PROD-7\<close> and \<open>PROD-8\<close>, and the second add at 7
  changes nothing.
\<close>

theorem adds_keep_ids_unique_witness:
  "adapterInv initialState \<and>
   distinct (ids (dispatchAddProducts codeUnitCompare
     [(7, ''2024-01-01'', stockTestData), (7, ''2024-01-02'', stockTestData),
      (8, ''2024-01-03'', stockTestData)] initialState)) \<and>
   set (ids (dispatchAddProducts codeUnitCompare
     [(7, ''2024-01-01'', stockTestData), (7, ''2024-01-02'', stockTestData),
      (8, ''2024-01-03'', stockTestData)] initialState)) = {''PROD-7'', ''PROD-8''} \<and>
   entities (dispatchAddProduct codeUnitCompare 7 ''2024-01-01'' stockTestData initialState)
     ''PROD-7'' \<noteq> None \<and>
   dispatchAddProduct codeUnitCompare 7 ''2024-01-02'' stockTestData
     (dispatchAddProduct codeUnitCompare 7 ''2024-01-01'' stockTestData initialState)
   = dispatchAddProduct codeUnitCompare 7 ''2024-01-01'' stockTestData initialState"
proof -
  let ?calls = "[(7, ''2024-01-01'', stockTestData), (7, ''2024-01-02'', stockTestData),
      (8, ''2024-01-03'', stockTestData)]"
  let ?s = "dispatchAddProduct codeUnitCompare 7 ''2024-01-01'' stockTestData initialState"
  have seven: "''PROD-'' @ stringOfNat 7 = ''PROD-7''"
    and eight: "''PROD-'' @ stringOfNat 8 = ''PROD-8''"
    by (simp_all add: stringOfNat_digit digitChar_def)
  have inv: "adapterInv ?s" by (simp add: adapterInv_dispatchAddProduct adapterInv_initial)
  have here: "entities ?s ''PROD-7'' \<noteq> None"
    by (simp only: dispatchAddProduct_stockTest) simp
  have a: "distinct (ids (dispatchAddProducts codeUnitCompare ?calls initialState))"
    and b: "set (ids (dispatchAddProducts codeUnitCompare ?calls initialState))
      = {''PROD-7'', ''PROD-8''}"
    using adds_keep_ids_unique [OF adapterInv_initial, of codeUnitCompare ?calls] seven eight
    by (auto simp: initialState_def)
  have c: "dispatchAddProduct codeUnitCompare 7 ''2024-01-02'' stockTestData ?s = ?s"
    using adds_keep_ids_unique [OF inv, of codeUnitCompare "[]" 7 "''2024-01-02''" stockTestData]
      here seven by simp
  from adapterInv_initial a b here c show ?thesis by simp
qed

subsection \<open>The error and the fetch status\<close>

lemma setAll_fields:
  "fetchStatus (setAll lc ps s) = fetchStatus s" "error (setAll lc ps s) = error s"
  by (simp_all add: setAll_def Let_def)


text \<open>
  Claim C9, as stated, covers every sequence of operations. Two calls of \<open>fetchInventory\<close>
  may overlap, and the \<open>fulfilled\<close> case does not reset the error. Here two calls start,
  the first fails and then the second succeeds: the status is \<open>succeeded\<close> and the error
  is still the message of the failure.
\<close>

theorem overlapping_fetch_counterexample:
  "resultsFollowPending 0
     [FetchPending, FetchPending,
      FetchResolved True 0 (sameDraw \<lparr> r_quantity = 0, r_category = ''Food'', r_price = 10,
        r_lastUpdated = ''2024-01-01'' \<rparr>),
      FetchResolved False 0 (sameDraw \<lparr> r_quantity = 0, r_category = ''Food'', r_price = 10,
        r_lastUpdated = ''2024-01-01'' \<rparr>)] \<and>
   fetchStatus (run codeUnitCompare
     [FetchPending, FetchPending,
      FetchResolved True 0 (sameDraw \<lparr> r_quantity = 0, r_category = ''Food'', r_price = 10,
        r_lastUpdated = ''2024-01-01'' \<rparr>),
      FetchResolved False 0 (sameDraw \<lparr> r_quantity = 0, r_category = ''Food'', r_price = 10,
        r_lastUpdated = ''2024-01-01'' \<rparr>)]) = Succeeded \<and>
   error (run codeUnitCompare
     [FetchPending, FetchPending,
      FetchResolved True 0 (sameDraw \<lparr> r_quantity = 0, r_category = ''Food'', r_price = 10,
        r_lastUpdated = ''2024-01-01'' \<rparr>),
      FetchResolved False 0 (sameDraw \<lparr> r_quantity = 0, r_category = ''Food'', r_price = 10,
        r_lastUpdated = ''2024-01-01'' \<rparr>)]) = Some ''Network error: Failed to fetch inventory''"
  by (simp add: run_def resolveFetchInventory_def fetchInventory_def fetchInventory_pending_def
      fetchInventory_rejected_def fetchInventory_fulfilled_def setAll_fields
      generateMockProducts_def)


text \<open>The fetch status and the error are touched by the fetch actions only.\<close>

lemma other_actions_keep_fetch:
  assumes "\<not> isFetch a"
  shows "fetchStatus (inventoryReducer lc s a) = fetchStatus s \<and>
         error (inventoryReducer lc s a) = error s"
proof (cases a)
  case (SetFilter key v)
  then show ?thesis by (cases key) (simp_all add: setFilter_def)
next
  case ClearFilters
  then show ?thesis by (simp add: clearFilters_def)
next
  case (SetSort k ord)
  then show ?thesis by (simp add: setSort_def)
next
  case (UpdateStock stamp k q)
  then show ?thesis by (simp add: updateStock_def split: option.split)
next
  case (AddProduct now stamp productData)
  then show ?thesis
    by (simp add: dispatchAddProduct_def addProduct_def addProduct_fulfilled_def Let_def
        addOne_def)
next
  case (UpdateProduct stamp u)
  then show ?thesis
    by (simp add: dispatchUpdateProduct_def updateProduct_def updateProduct_fulfilled_def
        updateOne_def Let_def split: option.split)
next
  case (DeleteProduct k)
  then show ?thesis
    by (simp add: dispatchDeleteProduct_def deleteProduct_def deleteProduct_fulfilled_def
        removeOne_def Let_def)
next
  case FetchPending
  with assms show ?thesis by simp
next
  case (FetchResolved netFail count rnd)
  with assms show ?thesis by simp
qed

lemma oneFetchAtATime_other:
  "\<not> isFetch a \<Longrightarrow> oneFetchAtATime pending (a # acts) = oneFetchAtATime pending acts"
  by (cases a) simp_all

lemma fetchInv_foldl:
  "fetchInv pending s \<Longrightarrow> oneFetchAtATime pending acts \<Longrightarrow>
   fetchStatus (foldl (inventoryReducer lc) s acts) \<noteq> Failed \<Longrightarrow>
   error (foldl (inventoryReducer lc) s acts) = None"
proof (induction acts arbitrary: s pending)
  case Nil
  then show ?case by (simp add: fetchInv_def)
next
  case (Cons a acts)
  consider (start) "a = FetchPending"
    | (result) netFail count rnd where "a = FetchResolved netFail count rnd"
    | (other) "\<not> isFetch a"
    by (cases a) simp_all
  then show ?case
  proof cases
    case start
    with Cons.prems have o: "oneFetchAtATime True acts" by simp
    have "fetchInv True (inventoryReducer lc s a)"
      using start by (simp add: fetchInv_def fetchInventory_pending_def)
    from Cons.IH [OF this o] Cons.prems(3) show ?thesis by simp
  next
    case result
    with Cons.prems have p: "pending" and o: "oneFetchAtATime False acts" by simp_all
    from p Cons.prems(1) have l: "fetchStatus s = Loading" "error s = None"
      by (simp_all add: fetchInv_def)
    have "fetchInv False (inventoryReducer lc s a)"
      using result l
      by (cases "fetchInventory netFail count rnd")
         (simp_all add: fetchInv_def resolveFetchInventory_def
            fetchInventory_rejected_def fetchInventory_fulfilled_def setAll_fields)
    from Cons.IH [OF this o] Cons.prems(3) show ?thesis by simp
  next
    case other
    with Cons.prems(2) have o: "oneFetchAtATime pending acts"
      by (simp add: oneFetchAtATime_other)
    from other_actions_keep_fetch [OF other, of lc s] Cons.prems(1)
    have "fetchInv pending (inventoryReducer lc s a)" by (simp add: fetchInv_def)
    from Cons.IH [OF this o] Cons.prems(3) show ?thesis by simp
  qed
qed


text \<open>
  Claim C9, amended. After every sequence of actions in which the calls of
  \<open>fetchInventory\<close> do not overlap (each starts when none is pending and its result comes
  before the next starts), the error is null whenever the fetch status is not \<open>failed\<close>.
\<close>

theorem error_null_unless_failed:
  "oneFetchAtATime False acts \<Longrightarrow> fetchStatus (run lc acts) \<noteq> Failed \<Longrightarrow>
   error (run lc acts) = None"
  unfolding run_def
  by (rule fetchInv_foldl [of False]) (simp_all add: fetchInv_def initialState_def)


text \<open>
  Claim C9, amended, at a load that fails followed by a load that succeeds: the status
  ends as \<open>succeeded\<close> and the error is null.
\<close>

theorem error_null_unless_failed_witness:
  "oneFetchAtATime False
     [FetchPending,
      FetchResolved True 0 (sameDraw \<lparr> r_quantity = 0, r_category = ''Food'', r_price = 10,
        r_lastUpdated = ''2024-01-01'' \<rparr>),
      FetchPending,
      FetchResolved False 0 (sameDraw \<lparr> r_quantity = 0, r_category = ''Food'', r_price = 10,
        r_lastUpdated = ''2024-01-01'' \<rparr>)] \<and>
   fetchStatus (run codeUnitCompare
     [FetchPending,
      FetchResolved True 0 (sameDraw \<lparr> r_quantity = 0, r_category = ''Food'', r_price = 10,
        r_lastUpdated = ''2024-01-01'' \<rparr>),
      FetchPending,
      FetchResolved False 0 (sameDraw \<lparr> r_quantity = 0, r_category = ''Food'', r_price = 10,
        r_lastUpdated = ''2024-01-01'' \<rparr>)]) = Succeeded \<and>
   error (run codeUnitCompare
     [FetchPending,
      FetchResolved True 0 (sameDraw \<lparr> r_quantity = 0, r_category = ''Food'', r_price = 10,
        r_lastUpdated = ''2024-01-01'' \<rparr>),
      FetchPending,
      FetchResolved False 0 (sameDraw \<lparr> r_quantity = 0, r_category = ''Food'', r_price = 10,
        r_lastUpdated = ''2024-01-01'' \<rparr>)]) = None"
proof -
  let ?acts = "[FetchPending,
      FetchResolved True 0 (sameDraw \<lparr> r_quantity = 0, r_category = ''Food'', r_price = 10,
        r_lastUpdated = ''2024-01-01'' \<rparr>),
      FetchPending,
      FetchResolved False 0 (sameDraw \<lparr> r_quantity = 0, r_category = ''Food'', r_price = 10,
        r_lastUpdated = ''2024-01-01'' \<rparr>)]"
  have o: "oneFetchAtATime False ?acts" by simp
  have f: "fetchStatus (run codeUnitCompare ?acts) = Succeeded"
    by (simp add: run_def resolveFetchInventory_def fetchInventory_def
        fetchInventory_pending_def fetchInventory_rejected_def fetchInventory_fulfilled_def
        setAll_fields generateMockProducts_def)
  then have "fetchStatus (run codeUnitCompare ?acts) \<noteq> Failed" by simp
  from error_null_unless_failed [OF o this] o f show ?thesis by simp
qed

subsection \<open>The status of a product\<close>

lemma keepFirst_single: "keepFirst [x] = [x]"
  by (simp add: keepFirst_def)


text \<open>
  Claim C1, as stated, asks that after every sequence of operations every product carries
  the status the specification computes from its quantity and minimum stock. Two runs of
  the store show otherwise. An update of the quantity to zero through \<open>updateProduct\<close>
  leaves the status \<open>in-stock\<close>: the changes are assigned and no status is computed. And
  the quantity \<open>-3\<close> (nothing keeps a quantity from being negative) makes the product low
  in stock, since \<open>-3\<close> is below the minimum stock, where the rule of the specification,
  which asks for a quantity above zero, says \<open>in-stock\<close>.
\<close>

theorem stale_status_counterexample:
  "entities (run codeUnitCompare
     [AddProduct 7 ''2024-01-01'' stockTestData,
      UpdateProduct ''2024-01-02'' (''PROD-7'', noChanges\<lparr>c_quantity := Some 0\<rparr>)]) ''PROD-7''
   = Some \<lparr> pid = ''PROD-7'', name = ''Stock Test'', sku = ''SKU-STOCK'',
            category = ''Electronics'', price = 100, quantity = 0, minStock = 10,
            status = InStock, lastUpdated = ''2024-01-02'' \<rparr> \<and>
   specStatus 0 10 = OutOfStock \<and>
   entities (run codeUnitCompare
     [AddProduct 7 ''2024-01-01'' stockTestData,
      UpdateStock ''2024-01-02'' ''PROD-7'' (- 3)]) ''PROD-7''
   = Some \<lparr> pid = ''PROD-7'', name = ''Stock Test'', sku = ''SKU-STOCK'',
            category = ''Electronics'', price = 100, quantity = - 3, minStock = 10,
            status = LowStock, lastUpdated = ''2024-01-02'' \<rparr> \<and>
   specStatus (- 3) 10 = InStock"
proof -
  have a: "run codeUnitCompare
     [AddProduct 7 ''2024-01-01'' stockTestData,
      UpdateProduct ''2024-01-02'' (''PROD-7'', noChanges\<lparr>c_quantity := Some 0\<rparr>)]
    = dispatchUpdateProduct codeUnitCompare ''2024-01-02''
        (''PROD-7'', noChanges\<lparr>c_quantity := Some 0\<rparr>)
        (dispatchAddProduct codeUnitCompare 7 ''2024-01-01'' stockTestData initialState)"
    by (simp add: run_def)
  have b: "run codeUnitCompare
     [AddProduct 7 ''2024-01-01'' stockTestData,
      UpdateStock ''2024-01-02'' ''PROD-7'' (- 3)]
    = updateStock ''2024-01-02'' ''PROD-7'' (- 3)
        (dispatchAddProduct codeUnitCompare 7 ''2024-01-01'' stockTestData initialState)"
    by (simp add: run_def)
  have c: "entities (dispatchUpdateProduct codeUnitCompare ''2024-01-02''
        (''PROD-7'', noChanges\<lparr>c_quantity := Some 0\<rparr>)
        (dispatchAddProduct codeUnitCompare 7 ''2024-01-01'' stockTestData initialState))
        ''PROD-7''
     = Some \<lparr> pid = ''PROD-7'', name = ''Stock Test'', sku = ''SKU-STOCK'',
            category = ''Electronics'', price = 100, quantity = 0, minStock = 10,
            status = InStock, lastUpdated = ''2024-01-02'' \<rparr>"
    by (simp only: dispatchAddProduct_stockTest)
       (simp add: dispatchUpdateProduct_def updateProduct_def updateProduct_fulfilled_def
          updateOne_def assignChanges_def noChanges_def Let_def)
  have d: "entities (updateStock ''2024-01-02'' ''PROD-7'' (- 3)
        (dispatchAddProduct codeUnitCompare 7 ''2024-01-01'' stockTestData initialState))
        ''PROD-7''
     = Some \<lparr> pid = ''PROD-7'', name = ''Stock Test'', sku = ''SKU-STOCK'',
            category = ''Electronics'', price = 100, quantity = - 3, minStock = 10,
            status = LowStock, lastUpdated = ''2024-01-02'' \<rparr>"
    by (simp only: dispatchAddProduct_stockTest) (simp add: updateStock_def)
  have e: "specStatus 0 10 = OutOfStock" "specStatus (- 3) 10 = InStock"
    by (simp_all add: specStatus_def)
  from c d e show ?thesis by (simp only: a b)
qed


lemma computeStatus_spec: "0 \<le> q \<Longrightarrow> computeStatus q m = specStatus q m"
  by (simp add: computeStatus_def specStatus_def)

lemma statusInv_initial: "statusInv initialState"
  by (simp add: statusInv_def initialState_def)

lemma statusInv_addOne:
  "statusInv s \<Longrightarrow> status p = computeStatus (quantity p) (minStock p) \<Longrightarrow>
   statusInv (addOne lc p s)"
  by (simp add: statusInv_def addOne_def Let_def)

lemma statusInv_foldl_store:
  "(\<forall>k q. m k = Some q \<longrightarrow> status q = computeStatus (quantity q) (minStock q)) \<Longrightarrow>
   (\<forall>p \<in> set ps. status p = computeStatus (quantity p) (minStock p)) \<Longrightarrow>
   foldl (\<lambda>m p. m(pid p \<mapsto> p)) m ps k = Some q \<Longrightarrow>
   status q = computeStatus (quantity q) (minStock q)"
proof (induction ps arbitrary: m)
  case Nil
  then show ?case by simp
next
  case (Cons a ps)
  have "\<forall>k q. (m(pid a \<mapsto> a)) k = Some q \<longrightarrow>
      status q = computeStatus (quantity q) (minStock q)"
    using Cons.prems(1,2) by simp
  moreover have "\<forall>p \<in> set ps. status p = computeStatus (quantity p) (minStock p)"
    using Cons.prems(2) by simp
  ultimately show ?case using Cons.IH Cons.prems(3) by simp
qed

lemma statusInv_setAll:
  assumes "\<forall>p \<in> set ps. status p = computeStatus (quantity p) (minStock p)"
  shows "statusInv (setAll lc ps s)"
proof -
  have "status q = computeStatus (quantity q) (minStock q)"
    if "foldl (\<lambda>m p. m(pid p \<mapsto> p)) Map.empty ps k = Some q" for k q
    by (rule statusInv_foldl_store [OF _ assms that]) simp
  then show ?thesis by (simp add: statusInv_def setAll_def Let_def)
qed

lemma generated_status:
  "generateMockProducts count rnd = Inr ps \<Longrightarrow>
   \<forall>p \<in> set ps. status p = computeStatus (quantity p) (minStock p)"
  by (auto simp: generateMockProducts_def mockProduct_def Let_def split: if_splits)

lemma fetched_status:
  "fetchInventory netFail count rnd = Fulfilled ps \<Longrightarrow>
   \<forall>p \<in> set ps. status p = computeStatus (quantity p) (minStock p)"
  by (cases "generateMockProducts count rnd")
     (simp_all add: fetchInventory_def generated_status split: if_splits)

lemma statusInv_removeOne: "statusInv s \<Longrightarrow> statusInv (removeOne k s)"
  by (simp add: statusInv_def removeOne_def Let_def)

lemma statusInv_updateStock: "statusInv s \<Longrightarrow> statusInv (updateStock stamp k q s)"
  by (auto simp: statusInv_def updateStock_def computeStatus_def split: option.splits)

lemma statusInv_reducer:
  assumes "statusInv s" and "\<not> isUpdateProduct a"
  shows "statusInv (inventoryReducer lc s a)"
proof (cases a)
  case (SetFilter key v)
  with assms(1) show ?thesis by (cases key) (simp_all add: setFilter_def statusInv_def)
next
  case ClearFilters
  with assms(1) show ?thesis by (simp add: clearFilters_def statusInv_def)
next
  case (SetSort k ord)
  with assms(1) show ?thesis by (simp add: setSort_def statusInv_def)
next
  case (UpdateStock stamp k q)
  with assms(1) show ?thesis by (simp add: statusInv_updateStock)
next
  case (AddProduct now stamp productData)
  with assms(1) show ?thesis
    by (simp add: dispatchAddProduct_def addProduct_def addProduct_fulfilled_def Let_def
        statusInv_addOne)
next
  case (UpdateProduct stamp u)
  with assms(2) show ?thesis by simp
next
  case (DeleteProduct k)
  with assms(1) show ?thesis
    by (simp add: dispatchDeleteProduct_def deleteProduct_def deleteProduct_fulfilled_def
        statusInv_removeOne)
next
  case FetchPending
  with assms(1) show ?thesis by (simp add: fetchInventory_pending_def statusInv_def)
next
  case (FetchResolved netFail count rnd)
  show ?thesis
  proof (cases "fetchInventory netFail count rnd")
    case (Fulfilled payload)
    then have "statusInv (setAll lc payload (s\<lparr>fetchStatus := Succeeded\<rparr>))"
      by (intro statusInv_setAll fetched_status)
    with Fulfilled FetchResolved show ?thesis
      by (simp add: resolveFetchInventory_def fetchInventory_fulfilled_def)
  next
    case (Rejected payload)
    with assms(1) FetchResolved show ?thesis
      by (simp add: resolveFetchInventory_def fetchInventory_rejected_def statusInv_def)
  qed
qed

lemma statusInv_foldl:
  "statusInv s \<Longrightarrow> \<forall>a \<in> set acts. \<not> isUpdateProduct a \<Longrightarrow>
   statusInv (foldl (inventoryReducer lc) s acts)"
  by (induction acts arbitrary: s) (simp_all add: statusInv_reducer)


text \<open>
  Claim C1, amended. After every sequence of actions without a call of \<open>updateProduct\<close>
  (loads, adds, \<open>updateStock\<close>, deletes, filter and sort changes), every product in the
  store carries the status computed from its quantity and minimum stock: out of stock
  when the quantity is zero, low stock when the quantity is not zero and below the
  minimum stock, in stock otherwise. For a quantity that is not negative this is the
  rule of the specification.
\<close>

theorem status_follows_quantity:
  assumes "\<forall>a \<in> set acts. \<not> isUpdateProduct a"
    and "entities (run lc acts) k = Some p"
  shows "status p = computeStatus (quantity p) (minStock p) \<and>
    (quantity p = 0 \<longrightarrow> status p = OutOfStock) \<and>
    (quantity p \<noteq> 0 \<and> quantity p < minStock p \<longrightarrow> status p = LowStock) \<and>
    (quantity p \<noteq> 0 \<and> \<not> quantity p < minStock p \<longrightarrow> status p = InStock) \<and>
    (0 \<le> quantity p \<longrightarrow> status p = specStatus (quantity p) (minStock p))"
proof -
  have "statusInv (run lc acts)"
    unfolding run_def using statusInv_initial assms(1) by (rule statusInv_foldl)
  with assms(2) have "status p = computeStatus (quantity p) (minStock p)"
    by (simp add: statusInv_def)
  then show ?thesis by (simp add: computeStatus_def specStatus_def)
qed



text \<open>
  Claim C1, amended, at the product of the test after \<open>updateStock\<close> sets its quantity to 5:
  it is low in stock, as the rule of the specification says.
\<close>

theorem status_follows_quantity_witness:
  "\<not> isUpdateProduct (AddProduct 7 ''2024-01-01'' stockTestData) \<and>
   \<not> isUpdateProduct (UpdateStock ''2024-01-02'' ''PROD-7'' 5) \<and>
   entities (run codeUnitCompare
     [AddProduct 7 ''2024-01-01'' stockTestData,
      UpdateStock ''2024-01-02'' ''PROD-7'' 5]) ''PROD-7''
   = Some \<lparr> pid = ''PROD-7'', name = ''Stock Test'', sku = ''SKU-STOCK'',
            category = ''Electronics'', price = 100, quantity = 5, minStock = 10,
            status = LowStock, lastUpdated = ''2024-01-02'' \<rparr> \<and>
   specStatus 5 10 = LowStock"
proof -
  let ?acts = "[AddProduct 7 ''2024-01-01'' stockTestData,
      UpdateStock ''2024-01-02'' ''PROD-7'' 5]"
  let ?p = "\<lparr> pid = ''PROD-7'', name = ''Stock Test'', sku = ''SKU-STOCK'',
            category = ''Electronics'', price = 100, quantity = 5, minStock = 10,
            status = LowStock, lastUpdated = ''2024-01-02'' \<rparr>"
  have n: "\<forall>a \<in> set ?acts. \<not> isUpdateProduct a" by simp
  have r: "run codeUnitCompare ?acts
    = updateStock ''2024-01-02'' ''PROD-7'' 5
        (dispatchAddProduct codeUnitCompare 7 ''2024-01-01'' stockTestData initialState)"
    by (simp add: run_def)
  have "entities (updateStock ''2024-01-02'' ''PROD-7'' 5
        (dispatchAddProduct codeUnitCompare 7 ''2024-01-01'' stockTestData initialState))
        ''PROD-7'' = Some ?p"
    by (simp only: dispatchAddProduct_stockTest) (simp add: updateStock_def)
  then have e: "entities (run codeUnitCompare ?acts) ''PROD-7'' = Some ?p"
    by (simp only: r)
  have "status ?p = specStatus (quantity ?p) (minStock ?p)"
    using status_follows_quantity [OF n e] by simp
  then have s: "specStatus 5 10 = LowStock" by simp
  from e s show ?thesis by simp
qed

end
